theory Spec2Isabelle
  imports Main "HOL-Library.AList" "HOL-Library.Char_ord" "HOL-Library.List_Lexorder"
begin

section \<open>Text\<close>

text \<open>
  A Python \<open>str\<close> is modelled as a \<open>string\<close>: one \<open>char\<close> per code point, so the
  model covers the texts whose code points are below 256. The four glyphs the program
  prints that lie beyond that range are spelled as their UTF-8 bytes.
\<close>

definition NL :: char where "NL = CHR 0x0A"
definition TAB :: char where "TAB = CHR 0x09"
definition DQ :: char where "DQ = CHR 0x22"
definition SQ :: char where "SQ = CHR 0x27"
definition BSL :: char where "BSL = CHR 0x5C"
definition BQ :: char where "BQ = CHR 0x60"

definition check_mark :: string where "check_mark = [CHR 0xE2, CHR 0x9C, CHR 0x93]"
definition cross_mark :: string where "cross_mark = [CHR 0xE2, CHR 0x9C, CHR 0x97]"
definition info_mark :: string where "info_mark = [CHR 0xE2, CHR 0x84, CHR 0xB9]"
definition warn_mark :: string where "warn_mark = [CHR 0xE2, CHR 0x9A, CHR 0xA0]"

text \<open>\<open>str.isspace\<close> on one character (code points below 256).\<close>

definition isspace :: "char \<Rightarrow> bool" where
  "isspace c = (c \<in> set [CHR 0x09, CHR 0x0A, CHR 0x0B, CHR 0x0C, CHR 0x0D, CHR 0x1C, CHR 0x1D,
                         CHR 0x1E, CHR 0x1F, CHR 0x20, CHR 0x85, CHR 0xA0])"

definition lstrip :: "string \<Rightarrow> string" where
  "lstrip s = dropWhile isspace s"

definition rstrip :: "string \<Rightarrow> string" where
  "rstrip s = rev (dropWhile isspace (rev s))"

definition strip :: "string \<Rightarrow> string" where
  "strip s = lstrip (rstrip s)"

definition startswith :: "string \<Rightarrow> string \<Rightarrow> bool" where
  "startswith s p = (take (length p) s = p)"

definition endswith :: "string \<Rightarrow> string \<Rightarrow> bool" where
  "endswith s p = (length p \<le> length s \<and> drop (length s - length p) s = p)"

text \<open>\<open>sep.join(xs)\<close>.\<close>

fun join :: "string \<Rightarrow> string list \<Rightarrow> string" where
  "join sep [] = []"
| "join sep [x] = x"
| "join sep (x # y # ys) = x @ sep @ join sep (y # ys)"

text \<open>\<open>s.split(c)\<close> for a one-character separator: never the empty list.\<close>

fun split_on :: "char \<Rightarrow> string \<Rightarrow> string list" where
  "split_on c [] = [[]]"
| "split_on c (x # xs) =
     (if x = c then [] # split_on c xs
      else (case split_on c xs of [] \<Rightarrow> [[x]] | l # ls \<Rightarrow> (x # l) # ls))"

text \<open>\<open>\d\<close> of \<open>re\<close> on a \<open>str\<close> pattern, and \<open>int\<close> on a string of such digits.\<close>

definition isdigit :: "char \<Rightarrow> bool" where
  "isdigit c = (CHR ''0'' \<le> c \<and> c \<le> CHR ''9'')"

definition digit_val :: "char \<Rightarrow> nat" where
  "digit_val c = of_char c - 48"

definition int_of_digits :: "string \<Rightarrow> nat" where
  "int_of_digits ds = foldl (\<lambda>n c. 10 * n + digit_val c) 0 ds"

text \<open>\<open>str(n)\<close> for a non-negative integer: decimal, no leading zero.\<close>

definition digit_char :: "nat \<Rightarrow> char" where
  "digit_char d = ''0123456789'' ! d"

fun str_nat :: "nat \<Rightarrow> string" where
  "str_nat n = (if n < 10 then [digit_char n] else str_nat (n div 10) @ [digit_char (n mod 10)])"

declare str_nat.simps [simp del]

text \<open>\<open>str.lower\<close> on one character, ASCII letters (no other character lowers to one).\<close>

definition lower_char :: "char \<Rightarrow> char" where
  "lower_char c =
     (case map_of (zip ''ABCDEFGHIJKLMNOPQRSTUVWXYZ'' ''abcdefghijklmnopqrstuvwxyz'') c of
        Some l \<Rightarrow> l
      | None \<Rightarrow> c)"

definition lower :: "string \<Rightarrow> string" where
  "lower s = map lower_char s"

subsection \<open>textwrap.dedent\<close>

definition blank_char :: "char \<Rightarrow> bool" where
  "blank_char c = (c = CHR '' '' \<or> c = TAB)"

text \<open>The longest common prefix of two indentations.\<close>

fun common_prefix :: "string \<Rightarrow> string \<Rightarrow> string" where
  "common_prefix (x # xs) (y # ys) = (if x = y then x # common_prefix xs ys else [])"
| "common_prefix _ _ = []"

text \<open>
  \<open>dedent\<close> first empties the lines made of blanks only, then collects the indentation of
  every line that has a character other than a blank, folds them to their common margin,
  and removes that margin from the start of every line that has it.
\<close>

definition whitespace_only_sub :: "string list \<Rightarrow> string list" where
  "whitespace_only_sub ls = map (\<lambda>l. if l \<noteq> [] \<and> list_all blank_char l then [] else l) ls"

definition indents :: "string list \<Rightarrow> string list" where
  "indents ls = map (takeWhile blank_char) (filter (\<lambda>l. dropWhile blank_char l \<noteq> []) ls)"

definition margin_of :: "string list \<Rightarrow> string" where
  "margin_of ins = (case ins of [] \<Rightarrow> [] | i # is \<Rightarrow> foldl common_prefix i is)"

definition remove_margin :: "string \<Rightarrow> string \<Rightarrow> string" where
  "remove_margin m l = (if startswith l m then drop (length m) l else l)"

definition dedent :: "string \<Rightarrow> string" where
  "dedent text =
     (let ls = whitespace_only_sub (split_on NL text);
          m = margin_of (indents ls)
      in if m = [] then join [NL] ls else join [NL] (map (remove_margin m) ls))"

section \<open>Paths\<close>

text \<open>
  A \<open>pathlib.Path\<close> on POSIX: whether it is anchored at the root, and its components.
  Parsing a string drops empty and \<open>.\<close> components. Components \<open>..\<close> are kept as they
  are, as pathlib does; the file system below has no such entry and no symbolic link.
  The two-slash root of POSIX is read as the plain root.
\<close>

record path =
  is_absolute :: bool
  parts :: "string list"

definition Path :: "string \<Rightarrow> path" where
  "Path s = \<lparr> is_absolute = startswith s ''/'',
             parts = filter (\<lambda>c. c \<noteq> [] \<and> c \<noteq> ''.'') (split_on CHR ''/'' s) \<rparr>"

definition str_path :: "path \<Rightarrow> string" where
  "str_path p =
     (if is_absolute p then ''/'' @ join ''/'' (parts p)
      else if parts p = [] then ''.'' else join ''/'' (parts p))"

text \<open>\<open>p / q\<close> for two paths, and \<open>p / name\<close> for a path and a string.\<close>

definition joinpath :: "path \<Rightarrow> path \<Rightarrow> path" where
  "joinpath p q = (if is_absolute q then q else p\<lparr> parts := parts p @ parts q \<rparr>)"

definition slash :: "path \<Rightarrow> string \<Rightarrow> path" where
  "slash p s = joinpath p (Path s)"

definition name :: "path \<Rightarrow> string" where
  "name p = (if parts p = [] then [] else last (parts p))"

text \<open>\<open>s.rfind('.')\<close>: the index of the last dot, if there is one.\<close>

fun rfind_dot :: "string \<Rightarrow> nat option" where
  "rfind_dot [] = None"
| "rfind_dot (c # cs) =
     (case rfind_dot cs of
        Some i \<Rightarrow> Some (Suc i)
      | None \<Rightarrow> if c = CHR ''.'' then Some 0 else None)"

definition suffix :: "path \<Rightarrow> string" where
  "suffix p =
     (let n = name p in
      case rfind_dot n of
        None \<Rightarrow> []
      | Some i \<Rightarrow> if 0 < i \<and> i < length n - 1 then drop i n else [])"

definition stem :: "path \<Rightarrow> string" where
  "stem p =
     (let n = name p in
      case rfind_dot n of
        None \<Rightarrow> n
      | Some i \<Rightarrow> if 0 < i \<and> i < length n - 1 then take i n else n)"

section \<open>Exceptions\<close>

text \<open>
  The exception classes the handlers of the program tell apart, each with the text
  \<open>str(e)\<close> gives. \<open>FileNotFoundError\<close> has a handler of its own in the rasterize stage;
  every other class is caught as \<open>Exception\<close>.
\<close>

datatype exn =
    FileNotFoundError string
  | IsADirectoryError string
  | NotADirectoryError string
  | FileExistsError string
  | OSError string
  | EOFError string
  | Exception string

fun str_exn :: "exn \<Rightarrow> string" where
  "str_exn (FileNotFoundError m) = m"
| "str_exn (IsADirectoryError m) = m"
| "str_exn (NotADirectoryError m) = m"
| "str_exn (FileExistsError m) = m"
| "str_exn (OSError m) = m"
| "str_exn (EOFError m) = m"
| "str_exn (Exception m) = m"

fun is_FileNotFoundError :: "exn \<Rightarrow> bool" where
  "is_FileNotFoundError (FileNotFoundError m) = True"
| "is_FileNotFoundError _ = False"

text \<open>
  The messages of the operating-system errors the file system below raises: the error
  number, its text, and the file name or names as the caller renders them. A name is
  quoted the way \<open>repr\<close> quotes a name of printable characters that has no quote and no
  backslash.
\<close>

definition repr :: "string \<Rightarrow> string" where
  "repr s = [SQ] @ s @ [SQ]"

definition enoent :: "string \<Rightarrow> exn" where
  "enoent names = FileNotFoundError (''[Errno 2] No such file or directory: '' @ names)"

definition eexist :: "string \<Rightarrow> exn" where
  "eexist names = FileExistsError (''[Errno 17] File exists: '' @ names)"

definition enotdir :: "string \<Rightarrow> exn" where
  "enotdir names = NotADirectoryError (''[Errno 20] Not a directory: '' @ names)"

definition eisdir :: "string \<Rightarrow> exn" where
  "eisdir names = IsADirectoryError (''[Errno 21] Is a directory: '' @ names)"

definition enotempty :: "string \<Rightarrow> exn" where
  "enotempty names = OSError (''[Errno 39] Directory not empty: '' @ names)"

section \<open>The file system\<close>

text \<open>
  A tree: a regular file holds its text and its metadata (what \<open>copystat\<close> copies, left
  opaque); a directory holds its entries in the order the operating system enumerates
  them. Looking a name up takes the first entry of that name. There are no symbolic
  links and no permissions. A location is the list of components from the root.
\<close>

datatype node = File string nat | Dir "(string \<times> node) list"

datatype errno = ENOENT | ENOTDIR

fun stat :: "node \<Rightarrow> string list \<Rightarrow> errno + node" where
  "stat n [] = Inr n"
| "stat (File c m) (x # xs) = Inl ENOTDIR"
| "stat (Dir es) (x # xs) = (case map_of es x of None \<Rightarrow> Inl ENOENT | Some n \<Rightarrow> stat n xs)"

definition lookup :: "node \<Rightarrow> string list \<Rightarrow> node option" where
  "lookup root p = (case stat root p of Inl e \<Rightarrow> None | Inr n \<Rightarrow> Some n)"

text \<open>The names in a directory, in enumeration order; none when it is not a directory.\<close>

definition scandir :: "node \<Rightarrow> string list \<Rightarrow> string list" where
  "scandir root d = (case lookup root d of Some (Dir es) \<Rightarrow> map fst es | _ \<Rightarrow> [])"

text \<open>Changing the entries of the directory at a location; no change when there is none.\<close>

fun upd_dir :: "string list \<Rightarrow> ((string \<times> node) list \<Rightarrow> (string \<times> node) list) \<Rightarrow> node \<Rightarrow> node" where
  "upd_dir [] f (Dir es) = Dir (f es)"
| "upd_dir [] f (File c m) = File c m"
| "upd_dir (x # xs) f (File c m) = File c m"
| "upd_dir (x # xs) f (Dir es) =
     (case map_of es x of
        None \<Rightarrow> Dir es
      | Some n \<Rightarrow> Dir (AList.update x (upd_dir xs f n) es))"

definition os_error :: "errno \<Rightarrow> string \<Rightarrow> exn" where
  "os_error e names = (case e of ENOENT \<Rightarrow> enoent names | ENOTDIR \<Rightarrow> enotdir names)"

text \<open>The entry at a location set to a node, in a directory that is there.\<close>

definition overwrite :: "string list \<Rightarrow> node \<Rightarrow> node \<Rightarrow> node" where
  "overwrite p f root = upd_dir (butlast p) (AList.update (last p) f) root"

text \<open>
  \<open>open(p, 'w')\<close> followed by the writes and the close: the file at \<open>p\<close> is created or
  replaced. \<open>shown\<close> is the path as the program wrote it, for the error message.
\<close>

definition write_file :: "string list \<Rightarrow> string \<Rightarrow> node \<Rightarrow> node \<Rightarrow> exn + node" where
  "write_file p shown f root =
     (if p = [] then Inl (eisdir (repr shown))
      else case stat root (butlast p) of
        Inl e \<Rightarrow> Inl (os_error e (repr shown))
      | Inr (File c m) \<Rightarrow> Inl (enotdir (repr shown))
      | Inr (Dir es) \<Rightarrow>
          (case map_of es (last p) of
             Some (Dir ds) \<Rightarrow> Inl (eisdir (repr shown))
           | _ \<Rightarrow> Inr (overwrite p f root)))"

text \<open>\<open>open(p)\<close> followed by \<open>read\<close>: the text of the regular file at \<open>p\<close>, with its metadata.\<close>

definition read_file :: "string list \<Rightarrow> string \<Rightarrow> node \<Rightarrow> exn + string \<times> nat" where
  "read_file p shown root =
     (case stat root p of
        Inl e \<Rightarrow> Inl (os_error e (repr shown))
      | Inr (Dir ds) \<Rightarrow> Inl (eisdir (repr shown))
      | Inr (File c m) \<Rightarrow> Inr (c, m))"

text \<open>
  \<open>os.rename\<close> of the entry \<open>a\<close> of the directory at \<open>d\<close> to the name \<open>b\<close> in the same
  directory, the only use the program makes of it. A file replaces a file; a directory
  replaces an empty directory. \<open>shown\<close> is the two paths as the error message shows them.
\<close>

definition rename_in :: "string list \<Rightarrow> string \<Rightarrow> string \<Rightarrow> string \<Rightarrow> node \<Rightarrow> exn + node" where
  "rename_in d a b shown root =
     (case stat root (d @ [a]) of
        Inl e \<Rightarrow> Inl (os_error e shown)
      | Inr n \<Rightarrow>
          if a = b then Inr root
          else
            (case (n, lookup root (d @ [b])) of
               (File c m, Some (Dir ds)) \<Rightarrow> Inl (eisdir shown)
             | (Dir es, Some (File c m)) \<Rightarrow> Inl (enotdir shown)
             | (Dir es, Some (Dir (x # xs))) \<Rightarrow> Inl (enotempty shown)
             | _ \<Rightarrow> Inr (upd_dir d (\<lambda>es. AList.update b n (AList.delete a es)) root)))"

text \<open>
  \<open>Path.mkdir(parents=True, exist_ok=True)\<close>: every missing directory on the way is
  created; a regular file on the way, or at the end, raises.
\<close>

fun mkdir_p :: "string list \<Rightarrow> string \<Rightarrow> node \<Rightarrow> exn + node" where
  "mkdir_p [] shown (Dir es) = Inr (Dir es)"
| "mkdir_p [] shown (File c m) = Inl (eexist (repr shown))"
| "mkdir_p (x # xs) shown (File c m) = Inl (enotdir (repr shown))"
| "mkdir_p (x # xs) shown (Dir es) =
     (case map_of es x of
        None \<Rightarrow>
          (case mkdir_p xs shown (Dir []) of
             Inl e \<Rightarrow> Inl e
           | Inr n \<Rightarrow> Inr (Dir (es @ [(x, n)])))
      | Some n \<Rightarrow>
          (case mkdir_p xs shown n of
             Inl e \<Rightarrow> Inl e
           | Inr n' \<Rightarrow> Inr (Dir (AList.update x n' es))))"

subsection \<open>Globbing and the page pattern\<close>

text \<open>
  \<open>fnmatch\<close> for a pattern \<open>pre*suf\<close>, the shape of the three patterns of the program:
  \<open>page-*.png\<close>, \<open>*.png\<close> and \<open>*.mmd\<close>. Case matters, and a leading dot is not special.
\<close>

definition fnmatch_star :: "string \<Rightarrow> string \<Rightarrow> string \<Rightarrow> bool" where
  "fnmatch_star pre suf n =
     (length pre + length suf \<le> length n \<and> startswith n pre \<and> endswith n suf)"

text \<open>\<open>d.glob(pre + '*' + suf)\<close>: the matching names of the directory, in enumeration order.\<close>

definition glob :: "node \<Rightarrow> string list \<Rightarrow> string \<Rightarrow> string \<Rightarrow> string list" where
  "glob root d pre suf = filter (fnmatch_star pre suf) (scandir root d)"

text \<open>
  \<open>re.search(r'page-(\d+)\.png', s)\<close>: the digits of the leftmost match. The digits are
  taken greedily, and giving one back never helps, since a dot must follow them.
\<close>

definition match_page_at :: "string \<Rightarrow> string option" where
  "match_page_at s =
     (if startswith s ''page-'' then
        (let r = drop 5 s; ds = takeWhile isdigit r; t = dropWhile isdigit r
         in if ds \<noteq> [] \<and> startswith t ''.png'' then Some ds else None)
      else None)"

fun re_search_page :: "string \<Rightarrow> string option" where
  "re_search_page [] = match_page_at []"
| "re_search_page (c # cs) =
     (case match_page_at (c # cs) of
        Some ds \<Rightarrow> Some ds
      | None \<Rightarrow> re_search_page cs)"

section \<open>The world the program runs in\<close>

text \<open>
  \<open>subprocess.run\<close> is the outside world: given the command line and the file system, a
  process either cannot be started (the call raises, and nothing has changed) or runs to
  completion with a return code, the text of its error stream, and the file system it
  leaves behind.
\<close>

datatype proc = Raises exn | Completed int string node

record env =
  argv :: "string list"
  stdin :: "string option"
  cwd :: "string list"
  subprocess_run :: "string list \<Rightarrow> node \<Rightarrow> proc"
  new_stat :: nat
  fmt_size :: "node \<Rightarrow> string"

text \<open>
  \<open>stdin\<close> is the line \<open>input\<close> reads, if there is one. \<open>new_stat\<close> is the metadata the
  operating system gives a file the program writes. \<open>fmt_size\<close> is the text of
  \<open>st_size / 1024 / 1024\<close> formatted with \<open>.1f\<close>, a floating-point computation.
\<close>

record state =
  fs :: node
  stdout :: "string list"

definition print :: "string \<Rightarrow> state \<Rightarrow> state" where
  "print line s = s\<lparr> stdout := stdout s @ [line] \<rparr>"

definition Path_cwd :: "env \<Rightarrow> path" where
  "Path_cwd E = \<lparr> is_absolute = True, parts = cwd E \<rparr>"

text \<open>Where a path leads: a relative path starts at the working directory.\<close>

definition location :: "env \<Rightarrow> path \<Rightarrow> string list" where
  "location E p = (if is_absolute p then parts p else cwd E @ parts p)"

definition exists :: "env \<Rightarrow> node \<Rightarrow> path \<Rightarrow> bool" where
  "exists E root p = (lookup root (location E p) \<noteq> None)"

definition is_dir :: "env \<Rightarrow> node \<Rightarrow> path \<Rightarrow> bool" where
  "is_dir E root p = (case lookup root (location E p) of Some (Dir es) \<Rightarrow> True | _ \<Rightarrow> False)"

definition mkdir :: "env \<Rightarrow> path \<Rightarrow> node \<Rightarrow> exn + node" where
  "mkdir E p root = mkdir_p (location E p) (str_path p) root"

text \<open>
  \<open>shutil.copy2(src, dst)\<close>: a destination that is a directory stands for the file of the
  source's name in it; the source is opened first, then the destination; the copy has the
  text and the metadata of the source.
\<close>

definition copy2 :: "env \<Rightarrow> path \<Rightarrow> path \<Rightarrow> node \<Rightarrow> exn + node" where
  "copy2 E src dst root =
     (let dst' = (if is_dir E root dst then slash dst (name src) else dst) in
      case read_file (location E src) (str_path src) root of
        Inl e \<Rightarrow> Inl e
      | Inr (content, stat_result) \<Rightarrow>
          write_file (location E dst') (str_path dst') (File content stat_result) root)"

text \<open>\<open>Path.rename\<close> of \<open>d / a\<close> to \<open>d / b\<close>.\<close>

definition rename :: "env \<Rightarrow> path \<Rightarrow> string \<Rightarrow> string \<Rightarrow> node \<Rightarrow> exn + node" where
  "rename E d a b root =
     rename_in (location E d) a b
       (repr (str_path (slash d a)) @ '' -> '' @ repr (str_path (slash d b))) root"

section \<open>PDFConverter\<close>

record converter =
  pdf_path :: path
  pdf_name :: string
  assets_in :: path
  assets_out :: path
  png_dir :: path
  nougat_out :: path
  copied_pdf :: path
  rmd_output :: path

text \<open>The attributes \<open>__init__\<close> sets.\<close>

definition attributes :: "path \<Rightarrow> converter" where
  "attributes p =
     \<lparr> pdf_path = p,
       pdf_name = stem p,
       assets_in = Path ''assets/in'',
       assets_out = Path ''assets/out'',
       png_dir = slash (Path ''assets/out'') ''png'',
       nougat_out = slash (Path ''assets/out'') ''nougat'',
       copied_pdf = slash (Path ''assets/in'') (name p),
       rmd_output = slash (Path ''assets/out'') (stem p @ ''.Rmd'') \<rparr>"

text \<open>
  \<open>__init__\<close>: the attributes, then the four directories. An exception of \<open>mkdir\<close> is not
  caught; the directories made before it stay.
\<close>

definition PDFConverter :: "env \<Rightarrow> path \<Rightarrow> state \<Rightarrow> (exn + converter) \<times> state" where
  "PDFConverter E p s =
     (let c = attributes p in
      case mkdir E (assets_in c) (fs s) of
        Inl e \<Rightarrow> (Inl e, s)
      | Inr r1 \<Rightarrow>
         (case mkdir E (assets_out c) r1 of
            Inl e \<Rightarrow> (Inl e, s\<lparr> fs := r1 \<rparr>)
          | Inr r2 \<Rightarrow>
             (case mkdir E (png_dir c) r2 of
                Inl e \<Rightarrow> (Inl e, s\<lparr> fs := r2 \<rparr>)
              | Inr r3 \<Rightarrow>
                 (case mkdir E (nougat_out c) r3 of
                    Inl e \<Rightarrow> (Inl e, s\<lparr> fs := r3 \<rparr>)
                  | Inr r4 \<Rightarrow> (Inr c, s\<lparr> fs := r4 \<rparr>)))))"

subsection \<open>Step 1: copy\<close>

definition copy_pdf :: "env \<Rightarrow> converter \<Rightarrow> state \<Rightarrow> bool \<times> state" where
  "copy_pdf E c s =
     (let s1 = print ([NL] @ ''[1/4] Copying PDF to '' @ str_path (assets_in c) @ ''/...'') s in
      if exists E (fs s1) (copied_pdf c) then
        (True, print (''  '' @ info_mark @ '' PDF already exists at '' @ str_path (copied_pdf c)) s1)
      else
        (case copy2 E (pdf_path c) (copied_pdf c) (fs s1) of
           Inr r \<Rightarrow>
             (True, print (''  '' @ check_mark @ '' Copied '' @ name (pdf_path c)) (s1\<lparr> fs := r \<rparr>))
         | Inl e \<Rightarrow>
             (False, print (''  '' @ cross_mark @ '' Error copying PDF: '' @ str_exn e) s1)))"

subsection \<open>Step 2: pages\<close>

definition pdftoppm_cmd :: "converter \<Rightarrow> string list" where
  "pdftoppm_cmd c =
     [''pdftoppm'', ''-png'', ''-r'', ''150'', str_path (copied_pdf c),
      str_path (slash (png_dir c) ''page'')]"

text \<open>
  The renaming loop over the sorted page files. It stops at the first rename that
  raises, with the renames done so far in place.
\<close>

fun rename_pages :: "env \<Rightarrow> path \<Rightarrow> string list \<Rightarrow> node \<Rightarrow> exn option \<times> node" where
  "rename_pages E d [] root = (None, root)"
| "rename_pages E d (page_file # page_files) root =
     (case re_search_page page_file of
        None \<Rightarrow> rename_pages E d page_files root
      | Some digits \<Rightarrow>
          (let page_num = int_of_digits digits in
           case rename E d page_file (str_nat page_num @ ''.png'') root of
             Inl e \<Rightarrow> (Some e, root)
           | Inr root' \<Rightarrow> rename_pages E d page_files root'))"

text \<open>The two handlers of the stage.\<close>

definition pdf_to_png_except :: "exn \<Rightarrow> state \<Rightarrow> bool \<times> state" where
  "pdf_to_png_except e s =
     (if is_FileNotFoundError e then
        (False,
         print ''    sudo apt-get install poppler-utils''
           (print (''  '' @ cross_mark @ '' pdftoppm not found. Please install poppler-utils:'') s))
      else
        (False, print (''  '' @ cross_mark @ '' Error converting PDF to PNG: '' @ str_exn e) s))"

definition pdf_to_png :: "env \<Rightarrow> converter \<Rightarrow> state \<Rightarrow> bool \<times> state" where
  "pdf_to_png E c s =
     (let s1 = print ([NL] @ ''[2/4] Converting PDF to PNG sequence in '' @ str_path (png_dir c) @ ''/...'') s;
          cmd = pdftoppm_cmd c;
          s2 = print (''  Running: '' @ join '' '' cmd) s1
      in case subprocess_run E cmd (fs s2) of
           Raises e \<Rightarrow> pdf_to_png_except e s2
         | Completed returncode stderr root \<Rightarrow>
             (let s3 = s2\<lparr> fs := root \<rparr> in
              if returncode \<noteq> 0 then
                (False, print (''  '' @ cross_mark @ '' pdftoppm failed: '' @ stderr) s3)
              else
                (let page_files = sort (glob (fs s3) (location E (png_dir c)) ''page-'' ''.png'') in
                 case rename_pages E (png_dir c) page_files (fs s3) of
                   (Some e, root') \<Rightarrow> pdf_to_png_except e (s3\<lparr> fs := root' \<rparr>)
                 | (None, root') \<Rightarrow>
                     (let s4 = s3\<lparr> fs := root' \<rparr>;
                          png_files = sort (glob (fs s4) (location E (png_dir c)) [] ''.png'')
                      in (True,
                          print (''  '' @ check_mark @ '' Created '' @ str_nat (length png_files) @ '' PNG images'') s4)))))"

subsection \<open>Step 3: OCR\<close>

definition nougat_cmd :: "converter \<Rightarrow> string list" where
  "nougat_cmd c =
     [''nougat'', str_path (copied_pdf c), ''-o'', str_path (nougat_out c), ''--no-skipping'']"

definition run_nougat_except :: "exn \<Rightarrow> state \<Rightarrow> bool \<times> state" where
  "run_nougat_except e s =
     (True,
      print ''  Continuing without OCR...''
        (print (''  '' @ warn_mark @ '' Error running Nougat: '' @ str_exn e) s))"

definition run_nougat :: "env \<Rightarrow> converter \<Rightarrow> state \<Rightarrow> bool \<times> state" where
  "run_nougat E c s =
     (let s1 = print ([NL] @ ''[3/4] Running Nougat OCR...'') s in
      case subprocess_run E [''which'', ''nougat''] (fs s1) of
        Raises e \<Rightarrow> run_nougat_except e s1
      | Completed check_returncode check_stderr root1 \<Rightarrow>
          (let s2 = s1\<lparr> fs := root1 \<rparr> in
           if check_returncode \<noteq> 0 then
             (False,
              print ''    pip install nougat-ocr''
                (print (''  '' @ cross_mark @ '' Nougat not found. Please install:'') s2))
           else
             (let cmd = nougat_cmd c;
                  s3 = print (''  Running: '' @ join '' '' cmd) s2
              in case subprocess_run E cmd (fs s3) of
                   Raises e \<Rightarrow> run_nougat_except e s3
                 | Completed returncode stderr root2 \<Rightarrow>
                     (let s4 = s3\<lparr> fs := root2 \<rparr>;
                          s5 = (if returncode \<noteq> 0 then
                                  print ''  Continuing with available output...''
                                    (print (''  '' @ warn_mark @ '' Nougat encountered issues: '' @ stderr) s4)
                                else s4);
                          mmd_files = glob (fs s5) (location E (nougat_out c)) [] ''.mmd''
                      in case mmd_files of
                           first # others \<Rightarrow>
                             (True, print (''  '' @ check_mark @ '' Nougat completed: '' @ first) s5)
                         | [] \<Rightarrow>
                             (True,
                              print (''  '' @ warn_mark @ '' No Nougat output found, will create placeholder'') s5)))))"

subsection \<open>Step 4: the document\<close>

text \<open>The text of the f-string, before \<open>dedent\<close>: each line carries the 16 blanks of the source.\<close>

definition header_lines :: "string \<Rightarrow> string list" where
  "header_lines title =
     [''---'',
      ''title: '' @ [DQ] @ title @ [DQ],
      ''author: '' @ [DQ] @ ''Generated by pdf2rmd'' @ [DQ],
      ''date: '' @ [DQ, BQ] @ ''r Sys.Date()'' @ [BQ, DQ],
      ''output:'',
      ''  pdf_document:'',
      ''    latex_engine: lualatex'',
      ''  html_document:'',
      ''    df_print: paged'',
      ''header-includes:'',
      ''  - '' @ [BSL] @ ''usepackage{fontspec}'',
      ''  - '' @ [BSL] @ ''setmainfont{DejaVu Serif}'',
      ''  - '' @ [BSL] @ ''setsansfont{DejaVu Sans}'',
      ''  - '' @ [BSL] @ ''setmonofont{DejaVu Sans Mono}'',
      ''---'',
      [],
      [BQ, BQ, BQ] @ ''{r setup, include=FALSE}'',
      ''knitr::opts_chunk$set(echo = TRUE, message = FALSE, warning = FALSE, fig.align = ''
        @ [DQ] @ ''center'' @ [DQ] @ '')'',
      ''library(knitr)'',
      ''library(magrittr)'',
      [BQ, BQ, BQ],
      []]"

definition header_template :: "string \<Rightarrow> string" where
  "header_template title =
     [NL] @ concat (map (\<lambda>l. replicate 16 CHR '' '' @ l @ [NL]) (header_lines title))
          @ replicate 16 CHR '' ''"

definition rmd_header :: "string \<Rightarrow> string" where
  "rmd_header title = lstrip (dedent (header_template title))"

definition transcript_marker :: string where
  "transcript_marker = [NL] @ ''<!-- Nougat OCR Transcript -->'' @ [NL, NL]"

definition placeholder :: "nat \<Rightarrow> string" where
  "placeholder n =
     [NL] @ ''<!-- Content Placeholder -->'' @ [NL, NL]
     @ ''## Document Pages'' @ [NL, NL]
     @ ''_OCR transcript not available. Document has '' @ str_nat n @ '' pages._'' @ [NL, NL]"

definition generate_base_rmd_except :: "exn \<Rightarrow> state \<Rightarrow> bool \<times> state" where
  "generate_base_rmd_except e s =
     (False, print (''  '' @ cross_mark @ '' Error generating Rmd: '' @ str_exn e) s)"

text \<open>
  The output file is opened (created or emptied) before anything is read; what has
  been written when an exception leaves the \<open>with\<close> block stays in the file.
\<close>

definition generate_base_rmd :: "env \<Rightarrow> converter \<Rightarrow> state \<Rightarrow> bool \<times> state" where
  "generate_base_rmd E c s =
     (let s1 = print ([NL] @ ''[4/4] Generating R Markdown file...'') s;
          out = location E (rmd_output c);
          w = (\<lambda>text root. overwrite out (File text (new_stat E)) root)
      in case write_file out (str_path (rmd_output c)) (File [] (new_stat E)) (fs s1) of
           Inl e \<Rightarrow> generate_base_rmd_except e s1
         | Inr root0 \<Rightarrow>
             (let header = rmd_header (pdf_name c);
                  mmd_files = glob root0 (location E (nougat_out c)) [] ''.mmd''
              in case mmd_files of
                   first # others \<Rightarrow>
                     (case read_file (location E (nougat_out c) @ [first])
                             (str_path (slash (nougat_out c) first)) root0 of
                        Inl e \<Rightarrow> generate_base_rmd_except e (s1\<lparr> fs := w header root0 \<rparr>)
                      | Inr (transcript, m) \<Rightarrow>
                          (True,
                           print (''  '' @ check_mark @ '' Created '' @ str_path (rmd_output c))
                             (s1\<lparr> fs := w (header @ transcript_marker @ rstrip transcript @ [NL]) root0 \<rparr>)))
                 | [] \<Rightarrow>
                     (let png_files = sort (glob root0 (location E (png_dir c)) [] ''.png'') in
                      (True,
                       print (''  '' @ check_mark @ '' Created '' @ str_path (rmd_output c))
                         (s1\<lparr> fs := w (header @ placeholder (length png_files)) root0 \<rparr>)))))"

subsection \<open>The pipeline\<close>

definition summary :: "converter \<Rightarrow> state \<Rightarrow> state" where
  "summary c s =
     print (replicate 70 CHR ''='')
       (print (''  2. Render: Rscript -e '' @ [SQ] @ ''rmarkdown::render('' @ [DQ]
                 @ str_path (rmd_output c) @ [DQ] @ '')'' @ [SQ])
       (print (''  1. Review '' @ str_path (rmd_output c))
       (print ([NL] @ ''Next steps:'')
       (print (''  PNG pages: '' @ str_path (png_dir c) @ ''/'')
       (print (''  Output: '' @ str_path (rmd_output c))
       (print (check_mark @ '' Conversion complete!'')
       (print ([NL] @ replicate 70 CHR ''='') s)))))))"

definition banner :: "state \<Rightarrow> state" where
  "banner s =
     print (replicate 70 CHR ''='')
       (print ''PDF to R Markdown Converter''
         (print (replicate 70 CHR ''='') s))"

definition convert :: "env \<Rightarrow> converter \<Rightarrow> state \<Rightarrow> int \<times> state" where
  "convert E c s =
     (let s0 = banner s;
          (copied, s1) = copy_pdf E c s0
      in if \<not> copied then (1, s1)
         else
           (let (rasterized, s2) = pdf_to_png E c s1
            in if \<not> rasterized then (1, s2)
               else
                 (let (transcribed, s3) = run_nougat E c s2
                  in if \<not> transcribed then (1, s3)
                     else
                       (let (generated, s4) = generate_base_rmd E c s3
                        in if \<not> generated then (1, s4)
                           else (0, summary c s4)))))"

section \<open>The entry point\<close>

text \<open>
  \<open>get_pdf_input\<close>: the path comes from the first argument or, without one, from a line
  read after a prompt (\<open>EOFError\<close> when there is none). The result is \<open>None\<close> after a
  diagnostic when the resolved path does not exist or is not named \<open>.pdf\<close>.
\<close>

definition get_pdf_input :: "env \<Rightarrow> state \<Rightarrow> (exn + path option) \<times> state" where
  "get_pdf_input E s =
     (let s1 = print (replicate 40 CHR ''-'') (print ([NL] @ ''PDF to R Markdown Converter'') s) in
      case (if length (argv E) > 1 then (Inr (Path (argv E ! 1)), s1)
            else
              (let s2 = print ''Enter path to PDF file: '' s1 in
               case stdin E of
                 None \<Rightarrow> (Inl (EOFError ''EOF when reading a line''), s2)
               | Some pdf_input \<Rightarrow> (Inr (Path (strip pdf_input)), s2))) of
        (Inl e, s3) \<Rightarrow> (Inl e, s3)
      | (Inr given, s3) \<Rightarrow>
          (let path' = (if \<not> is_absolute given then joinpath (Path_cwd E) given else given) in
           case lookup (fs s3) (location E path') of
             None \<Rightarrow> (Inr None, print (''Error: File not found: '' @ str_path path') s3)
           | Some n \<Rightarrow>
               if \<not> (lower (suffix path') = ''.pdf'') then
                 (Inr None, print (''Error: File is not a PDF: '' @ str_path path') s3)
               else
                 (Inr (Some path'),
                  print (''Size: '' @ fmt_size E n @ '' MB'')
                    (print (''Input PDF: '' @ str_path path') s3))))"

text \<open>\<open>main\<close>: an exception of \<open>get_pdf_input\<close> or of \<open>__init__\<close> is not caught.\<close>

definition main :: "env \<Rightarrow> state \<Rightarrow> (exn + int) \<times> state" where
  "main E s =
     (case get_pdf_input E s of
        (Inl e, s1) \<Rightarrow> (Inl e, s1)
      | (Inr None, s1) \<Rightarrow> (Inr 1, s1)
      | (Inr (Some path'), s1) \<Rightarrow>
          (case PDFConverter E path' s1 of
             (Inl e, s2) \<Rightarrow> (Inl e, s2)
           | (Inr converter, s2) \<Rightarrow>
               (let (code, s3) = convert E converter s2 in (Inr code, s3))))"

text \<open>
  \<open>sys.exit(main())\<close>: the exit status of the process. An exception that reaches the top
  ends the process with status 1.
\<close>

definition exit_status :: "exn + int \<Rightarrow> int" where
  "exit_status r = (case r of Inl e \<Rightarrow> 1 | Inr code \<Rightarrow> code)"

section \<open>Vocabulary of the properties\<close>

text \<open>
  The path string the user supplies (the first argument, or the stripped line read from
  standard input), and the path the checks are made on: a relative path is joined to the
  working directory.
\<close>

definition supplied :: "env \<Rightarrow> string option" where
  "supplied E = (if length (argv E) > 1 then Some (argv E ! 1) else map_option strip (stdin E))"

definition resolved :: "env \<Rightarrow> string \<Rightarrow> path" where
  "resolved E given =
     (if \<not> is_absolute (Path given) then joinpath (Path_cwd E) (Path given) else Path given)"

text \<open>
  The probe for the OCR executable reports it as not resolvable: \<open>which nougat\<close> runs and
  returns a code other than 0.
\<close>

definition ocr_unresolvable :: "env \<Rightarrow> node \<Rightarrow> bool" where
  "ocr_unresolvable E root =
     (case subprocess_run E [''which'', ''nougat''] root of
        Raises e \<Rightarrow> False
      | Completed rc err root' \<Rightarrow> rc \<noteq> 0)"

text \<open>What \<open>convert\<close> returns once the last stage has returned.\<close>

definition finish :: "converter \<Rightarrow> bool \<times> state \<Rightarrow> int \<times> state" where
  "finish c r = (if fst r then (0, summary c (snd r)) else (1, snd r))"

text \<open>\<open>open(p, 'w')\<close> succeeds: the directory of \<open>p\<close> is there and \<open>p\<close> is not a directory.\<close>

definition can_open :: "env \<Rightarrow> node \<Rightarrow> path \<Rightarrow> bool" where
  "can_open E root p =
     (case write_file (location E p) (str_path p) (File [] (new_stat E)) root of
        Inl e \<Rightarrow> False
      | Inr r \<Rightarrow> True)"

text \<open>
  A name of the rasterizer's native pattern: the stage renames exactly the names that
  \<open>page-*.png\<close> and the regular expression both match. Its page number is the value of
  the digits matched, and its canonical name that number followed by \<open>.png\<close>.
\<close>

definition native :: "string \<Rightarrow> bool" where
  "native n = (fnmatch_star ''page-'' ''.png'' n \<and> re_search_page n \<noteq> None)"

definition page_number :: "string \<Rightarrow> nat" where
  "page_number n = (case re_search_page n of None \<Rightarrow> 0 | Some digits \<Rightarrow> int_of_digits digits)"

definition canonical_name :: "string \<Rightarrow> string" where
  "canonical_name n = str_nat (page_number n) @ ''.png''"

text \<open>A canonical image name: a page number as \<open>str\<close> writes it, followed by \<open>.png\<close>.\<close>

definition canonical :: "string \<Rightarrow> bool" where
  "canonical n =
     (endswith n ''.png'' \<and>
      (let ds = take (length n - 4) n
       in ds \<noteq> [] \<and> list_all isdigit ds \<and> str_nat (int_of_digits ds) = ds))"

section \<open>Sample runs\<close>

text \<open>
  A working directory \<open>/w\<close> holding a one-page document \<open>doc.pdf\<close> and a text file
  \<open>report.txt\<close>. The outside tools are a parameter of the environment.
\<close>

definition silent_tools :: "string list \<Rightarrow> node \<Rightarrow> proc" where
  "silent_tools cmd root = Completed 0 [] root"

definition demo_root :: node where
  "demo_root =
     Dir [(''w'', Dir [(''doc.pdf'', File ''%PDF-1.4'' 420), (''report.txt'', File ''text'' 420)])]"

definition demo_state :: state where
  "demo_state = \<lparr> fs = demo_root, stdout = [] \<rparr>"

definition env_report_txt :: env where
  "env_report_txt =
     \<lparr> argv = [''main.py'', ''report.txt''], stdin = None, cwd = [''w''],
       subprocess_run = silent_tools, new_stat = 420, fmt_size = (\<lambda>n. ''0.0'') \<rparr>"

definition env_missing :: env where
  "env_missing =
     \<lparr> argv = [''main.py''], stdin = Some ''  missing.pdf '', cwd = [''w''],
       subprocess_run = silent_tools, new_stat = 420, fmt_size = (\<lambda>n. ''0.0'') \<rparr>"

definition env_doc :: "(string list \<Rightarrow> node \<Rightarrow> proc) \<Rightarrow> env" where
  "env_doc tools =
     \<lparr> argv = [''main.py'', ''/w/doc.pdf''], stdin = None, cwd = [''w''],
       subprocess_run = tools, new_stat = 420, fmt_size = (\<lambda>n. ''0.0'') \<rparr>"

text \<open>The run on \<open>/w/doc.pdf\<close> up to the end of the first stage.\<close>

definition doc_path :: path where
  "doc_path = \<lparr> is_absolute = True, parts = [''w'', ''doc.pdf''] \<rparr>"

definition doc_conv :: converter where
  "doc_conv =
     \<lparr> pdf_path = doc_path,
       pdf_name = ''doc'',
       assets_in = \<lparr> is_absolute = False, parts = [''assets'', ''in''] \<rparr>,
       assets_out = \<lparr> is_absolute = False, parts = [''assets'', ''out''] \<rparr>,
       png_dir = \<lparr> is_absolute = False, parts = [''assets'', ''out'', ''png''] \<rparr>,
       nougat_out = \<lparr> is_absolute = False, parts = [''assets'', ''out'', ''nougat''] \<rparr>,
       copied_pdf = \<lparr> is_absolute = False, parts = [''assets'', ''in'', ''doc.pdf''] \<rparr>,
       rmd_output = \<lparr> is_absolute = False, parts = [''assets'', ''out'', ''doc.Rmd''] \<rparr> \<rparr>"

definition doc_validated :: state where
  "doc_validated =
     print ''Size: 0.0 MB''
       (print ''Input PDF: /w/doc.pdf''
         (print (replicate 40 CHR ''-'')
           (print ([NL] @ ''PDF to R Markdown Converter'') demo_state)))"

text \<open>The tree with the working directories, and a given content of the three of them.\<close>

definition work_tree :: "(string \<times> node) list \<Rightarrow> (string \<times> node) list \<Rightarrow> (string \<times> node) list \<Rightarrow> node" where
  "work_tree staged pages transcripts =
     Dir [(''w'',
           Dir [(''doc.pdf'', File ''%PDF-1.4'' 420),
                (''report.txt'', File ''text'' 420),
                (''assets'',
                 Dir [(''in'', Dir staged),
                      (''out'', Dir ([(''png'', Dir pages), (''nougat'', Dir transcripts)]))])])]"

definition doc_ready :: state where
  "doc_ready = doc_validated\<lparr> fs := work_tree [] [] [] \<rparr>"

definition doc_staged :: state where
  "doc_staged =
     print (''  '' @ check_mark @ '' Copied doc.pdf'')
       ((print ([NL] @ ''[1/4] Copying PDF to assets/in/...'') (banner doc_ready))
        \<lparr> fs := work_tree [(''doc.pdf'', File ''%PDF-1.4'' 420)] [] [] \<rparr>)"

text \<open>
  A rasterizer that writes one page image, \<open>page-1.png\<close>, into the pages directory of
  \<open>/w\<close>; tools for which \<open>which nougat\<close> finds nothing; and a rasterizer that rejects
  the document.
\<close>

definition one_page :: "node \<Rightarrow> node" where
  "one_page root = overwrite [''w'', ''assets'', ''out'', ''png'', ''page-1.png''] (File ''PNG'' 420) root"

definition tools_no_ocr :: "string list \<Rightarrow> node \<Rightarrow> proc" where
  "tools_no_ocr cmd root =
     (if cmd = [''which'', ''nougat''] then Completed 1 [] root
      else if take 1 cmd = [''pdftoppm''] then Completed 0 [] (one_page root)
      else Raises (FileNotFoundError ''[Errno 2] No such file or directory''))"

definition tools_broken_pdf :: "string list \<Rightarrow> node \<Rightarrow> proc" where
  "tools_broken_pdf cmd root =
     (if take 1 cmd = [''pdftoppm''] then Completed 1 ''Syntax Error: broken xref table'' root
      else Completed 0 [] root)"

text \<open>Tools whose OCR run fails and leaves no transcript.\<close>

definition tools_ocr_fails :: "string list \<Rightarrow> node \<Rightarrow> proc" where
  "tools_ocr_fails cmd root =
     (if cmd = [''which'', ''nougat''] then Completed 0 [] root
      else if take 1 cmd = [''pdftoppm''] then Completed 0 [] (one_page root)
      else Completed 1 ''out of memory'' root)"

text \<open>The run on \<open>/w/doc.pdf\<close> after a rasterizer that wrote one page.\<close>

definition doc_paged :: state where
  "doc_paged =
     print (''  '' @ check_mark @ '' Created 1 PNG images'')
       ((print ''  Running: pdftoppm -png -r 150 assets/in/doc.pdf assets/out/png/page''
          (print ([NL] @ ''[2/4] Converting PDF to PNG sequence in assets/out/png/...'') doc_staged))
        \<lparr> fs := work_tree [(''doc.pdf'', File ''%PDF-1.4'' 420)] [(''1.png'', File ''PNG'' 420)] [] \<rparr>)"

text \<open>The same run after an OCR tool that was found, failed, and left no transcript.\<close>

definition doc_ocr_failed :: state where
  "doc_ocr_failed =
     print (''  '' @ warn_mark @ '' No Nougat output found, will create placeholder'')
       (print ''  Continuing with available output...''
         (print (''  '' @ warn_mark @ '' Nougat encountered issues: out of memory'')
           (print ''  Running: nougat assets/in/doc.pdf -o assets/out/nougat --no-skipping''
             (print ([NL] @ ''[3/4] Running Nougat OCR...'') doc_paged))))"

text \<open>Another document of the same name, somewhere else.\<close>

definition other_path :: path where
  "other_path = \<lparr> is_absolute = True, parts = [''elsewhere'', ''doc.pdf''] \<rparr>"

text \<open>
  The run on \<open>/w/doc.pdf\<close> at the last stage, with a given content of the OCR-output
  directory: one transcript, or two that the directory enumerates in the order
  \<open>b.mmd\<close>, \<open>a.mmd\<close>.
\<close>

definition at_emit :: "(string \<times> node) list \<Rightarrow> state" where
  "at_emit transcripts =
     \<lparr> fs = work_tree [(''doc.pdf'', File ''%PDF-1.4'' 420)] [(''1.png'', File ''PNG'' 420)] transcripts,
       stdout = [] \<rparr>"

definition one_transcript :: "(string \<times> node) list" where
  "one_transcript = [(''doc.mmd'', File (''# Title'' @ [NL, NL] @ ''Body '' @ [NL, NL]) 420)]"

definition two_transcripts :: "(string \<times> node) list" where
  "two_transcripts = [(''b.mmd'', File (''B'' @ [NL]) 420), (''a.mmd'', File (''A'' @ [NL]) 420)]"

text \<open>
  The run on \<open>/w/doc.pdf\<close> at the rasterize stage, with a given content of the pages
  directory, and a rasterizer that writes given files into that directory.
\<close>

definition at_pages :: "(string \<times> node) list \<Rightarrow> state" where
  "at_pages pages =
     \<lparr> fs = work_tree [(''doc.pdf'', File ''%PDF-1.4'' 420)] pages [], stdout = [] \<rparr>"

definition rasterizer_writes :: "(string \<times> node) list \<Rightarrow> string list \<Rightarrow> node \<Rightarrow> proc" where
  "rasterizer_writes files cmd root =
     (if take 1 cmd = [''pdftoppm''] then
        Completed 0 []
          (fold (\<lambda>(n, f) r. overwrite [''w'', ''assets'', ''out'', ''png'', n] f r) files root)
      else Completed 0 [] root)"

text \<open>Tools that fail whenever their command line carries the supplied path \<open>/w/doc.pdf\<close>.\<close>

definition tools_reject_supplied :: "string list \<Rightarrow> node \<Rightarrow> proc" where
  "tools_reject_supplied cmd root =
     (if ''/w/doc.pdf'' \<in> set cmd then Completed 1 ''given the supplied path'' root
      else Completed 0 [] root)"

text \<open>
  The last stage of the run on \<open>/w/doc.pdf\<close> with a pages directory that holds, besides
  the page image \<open>1.png\<close>, a picture \<open>cover.png\<close> and a directory \<open>dir.png\<close>.
\<close>

definition at_emit_cluttered :: state where
  "at_emit_cluttered =
     \<lparr> fs = work_tree [(''doc.pdf'', File ''%PDF-1.4'' 420)]
              [(''1.png'', File ''PNG'' 420), (''cover.png'', File ''art'' 420), (''dir.png'', Dir [])] [],
       stdout = [] \<rparr>"

text \<open>
  A page-image file of a directory: an entry with a canonical name that is a regular
  file.
\<close>

definition page_image :: "node \<Rightarrow> string list \<Rightarrow> string \<Rightarrow> bool" where
  "page_image root d n =
     (canonical n \<and> (case lookup root (d @ [n]) of Some (File c m) \<Rightarrow> True | _ \<Rightarrow> False))"

section \<open>Basic facts\<close>

lemma fs_print [simp]: "fs (print l s) = fs s"
  by (simp add: print_def)

lemma stdout_print [simp]: "stdout (print l s) = stdout s @ [l]"
  by (simp add: print_def)

lemma Path_cwd_tools [simp]: "Path_cwd (E\<lparr> subprocess_run := t \<rparr>) = Path_cwd E"
  by (simp add: Path_cwd_def)

lemma location_tools [simp]: "location (E\<lparr> subprocess_run := t \<rparr>) p = location E p"
  by (simp add: location_def)

section \<open>Input validation\<close>

lemma get_pdf_input_fs: "fs (snd (get_pdf_input E s)) = fs s"
  unfolding get_pdf_input_def Let_def
  by (cases "1 < length (argv E)"; cases "stdin E"; simp split: option.split)

lemma get_pdf_input_tools: "get_pdf_input (E\<lparr> subprocess_run := t \<rparr>) s = get_pdf_input E s"
  unfolding get_pdf_input_def Let_def
  by (cases "1 < length (argv E)"; cases "stdin E"; simp split: option.split)

lemma get_pdf_input_rejects:
  assumes "supplied E = Some given"
    and "\<not> exists E (fs s) (resolved E given) \<or> lower (suffix (resolved E given)) \<noteq> ''.pdf''"
  shows "fst (get_pdf_input E s) = Inr None"
proof (cases "1 < length (argv E)")
  case True
  then have g: "given = argv E ! 1"
    using assms(1) by (simp add: supplied_def)
  show ?thesis
    using True assms(2) unfolding g
    by (simp add: get_pdf_input_def resolved_def [symmetric] exists_def Let_def
        split: option.splits; blast)
next
  case False
  then obtain l where l: "stdin E = Some l" "given = strip l"
    using assms(1) by (auto simp: supplied_def)
  show ?thesis
    using False assms(2) unfolding l
    by (simp add: get_pdf_input_def resolved_def [symmetric] exists_def Let_def l
        split: option.splits; blast)
qed

lemma main_rejected: "fst (get_pdf_input E s) = Inr None \<Longrightarrow> main E s = (Inr 1, snd (get_pdf_input E s))"
  by (cases "get_pdf_input E s") (simp add: main_def)

text \<open>
  C6. When the supplied path, resolved against the working directory if it is relative,
  does not exist or has an extension other than \<open>.pdf\<close> in any letter case, the entry
  point ends with exit status 1 and the pipeline is not invoked: the final state is the
  one input validation leaves, and no outside tool has any influence on the run.
\<close>

theorem invalid_input_fails:
  assumes "supplied E = Some given"
    and "\<not> exists E (fs s) (resolved E given) \<or> lower (suffix (resolved E given)) \<noteq> ''.pdf''"
  shows "exit_status (fst (main E s)) = 1
       \<and> main E s = (Inr 1, snd (get_pdf_input E s))
       \<and> main (E\<lparr> subprocess_run := tools \<rparr>) s = main E s
       \<and> is_absolute (resolved E given)
       \<and> (\<not> is_absolute (Path given) \<longrightarrow> parts (resolved E given) = cwd E @ parts (Path given))"
proof -
  have r: "fst (get_pdf_input E s) = Inr None"
    using assms by (rule get_pdf_input_rejects)
  then have m: "main E s = (Inr 1, snd (get_pdf_input E s))"
    by (rule main_rejected)
  have "fst (get_pdf_input (E\<lparr> subprocess_run := tools \<rparr>) s) = Inr None"
    using r by (simp add: get_pdf_input_tools)
  then have m': "main (E\<lparr> subprocess_run := tools \<rparr>) s = (Inr 1, snd (get_pdf_input E s))"
    by (simp add: main_rejected get_pdf_input_tools)
  show ?thesis
    using m m' by (simp add: exit_status_def resolved_def joinpath_def Path_cwd_def)
qed

theorem invalid_input_fails_witness:
  "exit_status (fst (main env_report_txt demo_state)) = 1
   \<and> fs (snd (main env_report_txt demo_state)) = demo_root
   \<and> stdout (snd (main env_report_txt demo_state)) =
       [[NL] @ ''PDF to R Markdown Converter'', replicate 40 CHR ''-'',
        ''Error: File is not a PDF: /w/report.txt'']"
proof -
  have a: "supplied env_report_txt = Some ''report.txt''"
    by (simp add: supplied_def env_report_txt_def)
  have b: "\<not> exists env_report_txt (fs demo_state) (resolved env_report_txt ''report.txt'')
           \<or> lower (suffix (resolved env_report_txt ''report.txt'')) \<noteq> ''.pdf''"
    by (simp add: resolved_def Path_def startswith_def joinpath_def Path_cwd_def suffix_def
        name_def lower_def lower_char_def env_report_txt_def)
  have c: "snd (get_pdf_input env_report_txt demo_state) =
      \<lparr> fs = demo_root, stdout = [[NL] @ ''PDF to R Markdown Converter'', replicate 40 CHR ''-'',
        ''Error: File is not a PDF: /w/report.txt''] \<rparr>"
    by (simp add: get_pdf_input_def env_report_txt_def demo_state_def demo_root_def print_def
        Path_def startswith_def joinpath_def Path_cwd_def suffix_def name_def lower_def lower_char_def
        location_def lookup_def str_path_def)
  show ?thesis
    using invalid_input_fails [OF a b] c by (simp add: exit_status_def)
qed

text \<open>
  C7. When the supplied path does not exist, the run ends with exit status 1 and the file
  system is what it was: no directory and no file has been created. The working
  directories are made by the constructor, which runs only after validation.
\<close>

theorem missing_input_changes_nothing:
  assumes "supplied E = Some given"
    and "\<not> exists E (fs s) (resolved E given)"
  shows "exit_status (fst (main E s)) = 1 \<and> fs (snd (main E s)) = fs s"
proof -
  have "fst (get_pdf_input E s) = Inr None"
    using assms by (intro get_pdf_input_rejects) auto
  then have "main E s = (Inr 1, snd (get_pdf_input E s))"
    by (rule main_rejected)
  then show ?thesis
    by (simp add: exit_status_def get_pdf_input_fs)
qed

theorem missing_input_changes_nothing_witness:
  "exit_status (fst (main env_missing demo_state)) = 1
   \<and> fs (snd (main env_missing demo_state)) = demo_root"
proof -
  have a: "supplied env_missing = Some ''missing.pdf''"
    by (simp add: supplied_def env_missing_def strip_def lstrip_def rstrip_def isspace_def)
  have b: "\<not> exists env_missing (fs demo_state) (resolved env_missing ''missing.pdf'')"
    by (simp add: resolved_def Path_def startswith_def joinpath_def Path_cwd_def exists_def
        location_def lookup_def env_missing_def demo_state_def demo_root_def)
  show ?thesis
    using missing_input_changes_nothing [OF a b] by (simp add: demo_state_def)
qed

section \<open>The file system: facts\<close>

lemma stat_append:
  "stat root (d @ q) = (case stat root d of Inl e \<Rightarrow> Inl e | Inr n \<Rightarrow> stat n q)"
proof (induction d arbitrary: root)
  case Nil
  then show ?case by simp
next
  case (Cons x xs)
  show ?case
  proof (cases root)
    case (File t m)
    then show ?thesis by simp
  next
    case (Dir es)
    then show ?thesis
      using Cons.IH by (simp split: option.split)
  qed
qed

lemma stat_entry:
  "stat (Dir es) [x] = (case map_of es x of None \<Rightarrow> Inl ENOENT | Some n \<Rightarrow> Inr n)"
  by (simp split: option.split)

lemma stat_upd_dir_same:
  "stat root d = Inr (Dir es) \<Longrightarrow> stat (upd_dir d f root) d = Inr (Dir (f es))"
proof (induction d arbitrary: root)
  case Nil
  then show ?case by simp
next
  case (Cons x xs)
  then obtain ds where root: "root = Dir ds"
    by (cases root) simp_all
  from Cons.prems root obtain n where n: "map_of ds x = Some n" "stat n xs = Inr (Dir es)"
    by (auto split: option.splits)
  from Cons.IH [OF n(2)] show ?case
    by (simp add: root n(1) update_conv')
qed

lemma lookup_child:
  assumes "stat root d = Inr (Dir es)"
  shows "lookup root (d @ [x]) = map_of es x"
  using assms by (simp add: lookup_def stat_append split: option.split)

lemma lookup_overwrite_same:
  assumes "p \<noteq> []" and "stat root (butlast p) = Inr (Dir es)"
  shows "lookup (overwrite p f root) p = Some f"
proof -
  have "stat (overwrite p f root) (butlast p) = Inr (Dir (AList.update (last p) f es))"
    unfolding overwrite_def using assms(2) by (rule stat_upd_dir_same)
  then have "lookup (overwrite p f root) (butlast p @ [last p]) = map_of (AList.update (last p) f es) (last p)"
    by (rule lookup_child)
  then show ?thesis
    using assms(1) by (simp add: update_conv')
qed

lemma write_file_Inr:
  assumes "write_file p shown f root = Inr r"
  shows "p \<noteq> [] \<and> r = overwrite p f root \<and> (\<exists>es. stat root (butlast p) = Inr (Dir es))"
  using assms unfolding write_file_def
  by (auto split: if_splits sum.splits node.splits option.splits)

lemma write_file_Dir:
  assumes "p \<noteq> []" and "stat root (butlast p) = Inr (Dir es)" and "\<not> (\<exists>ds. map_of es (last p) = Some (Dir ds))"
  shows "write_file p shown f root = Inr (overwrite p f root)"
  using assms unfolding write_file_def
  by (auto split: option.splits node.splits)

lemma read_file_Inr:
  "read_file p shown root = Inr (t, m) \<longleftrightarrow> lookup root p = Some (File t m)"
  unfolding read_file_def lookup_def
  by (auto split: sum.splits node.splits)

text \<open>
  Writing a regular file changes no enumeration but that of its own directory, which
  gains the name if it is new, and no regular file but the one written.
\<close>

lemma scandir_stat:
  "scandir root d = (case stat root d of Inr (Dir es) \<Rightarrow> map fst es | _ \<Rightarrow> [])"
  by (simp add: scandir_def lookup_def split: sum.split node.split)

lemma scandir_upd_dir_file:
  assumes "stat root q = Inr (Dir es)" and "\<forall>ds. map_of es k \<noteq> Some (Dir ds)"
  shows "scandir (upd_dir q (AList.update k (File t m)) root) d =
           (if d = q \<and> k \<notin> fst ` set es then scandir root d @ [k] else scandir root d)"
  using assms
proof (induction q arbitrary: root d)
  case Nil
  then have root: "root = Dir es"
    by simp
  show ?case
  proof (cases d)
    case Nil
    then show ?thesis
      by (simp add: root scandir_stat update_keys)
  next
    case (Cons x xs)
    show ?thesis
    proof (cases "x = k")
      case False
      then show ?thesis
        by (simp add: root Cons scandir_stat update_conv')
    next
      case True
      have new: "scandir (Dir (AList.update k (File t m) es)) (k # xs) = []"
        by (cases xs) (simp_all add: scandir_stat update_conv')
      have old: "scandir (Dir es) (k # xs) = []"
      proof (cases "map_of es k")
        case None
        then show ?thesis by (simp add: scandir_stat)
      next
        case (Some n)
        with Nil.prems(2) obtain t' m' where "n = File t' m'"
          by (cases n) auto
        with Some show ?thesis
          by (cases xs) (simp_all add: scandir_stat)
      qed
      show ?thesis
        using new old by (simp add: root Cons True)
    qed
  qed
next
  case (Cons y ys)
  then obtain ds where root: "root = Dir ds"
    by (cases root) simp_all
  from Cons.prems(1) root obtain n where n: "map_of ds y = Some n" "stat n ys = Inr (Dir es)"
    by (auto split: option.splits)
  have present: "y \<in> fst ` set ds"
    using n(1) by (rule map_of_SomeD [THEN rev_image_eqI]) simp
  show ?case
  proof (cases d)
    case Nil
    then show ?thesis
      using present by (simp add: root n(1) scandir_stat update_keys)
  next
    case d: (Cons x xs)
    show ?thesis
    proof (cases "x = y")
      case False
      then show ?thesis
        by (simp add: root n(1) d scandir_stat update_conv')
    next
      case True
      have "scandir (upd_dir ys (AList.update k (File t m)) n) xs =
          (if xs = ys \<and> k \<notin> fst ` set es then scandir n xs @ [k] else scandir n xs)"
        using n(2) Cons.prems(2) by (rule Cons.IH)
      then show ?thesis
        by (simp add: root n(1) d True scandir_stat update_conv')
    qed
  qed
qed

lemma lookup_upd_dir_file:
  assumes "stat root q = Inr (Dir es)" and "\<forall>ds. map_of es k \<noteq> Some (Dir ds)"
    and "lookup root x = Some (File t' m')" and "x \<noteq> q @ [k]"
  shows "lookup (upd_dir q (AList.update k f) root) x = Some (File t' m')"
  using assms
proof (induction q arbitrary: root x)
  case Nil
  then have root: "root = Dir es"
    by simp
  from Nil.prems(3) root obtain z zs where x: "x = z # zs"
    by (cases x) (simp_all add: lookup_def)
  show ?case
  proof (cases "z = k")
    case False
    then show ?thesis
      using Nil.prems(3) by (simp add: root x lookup_def update_conv')
  next
    case True
    with Nil.prems(4) x have "zs \<noteq> []"
      by simp
    then obtain w ws where zs: "zs = w # ws"
      by (cases zs) simp_all
    from Nil.prems(3) obtain n where n: "map_of es k = Some n" "stat n (w # ws) = Inr (File t' m')"
      by (auto simp: root x True zs lookup_def split: option.splits sum.splits)
    from n(1) Nil.prems(2) obtain t'' m'' where "n = File t'' m''"
      by (cases n) auto
    with n(2) have False
      by simp
    then show ?thesis ..
  qed
next
  case (Cons y ys)
  then obtain ds where root: "root = Dir ds"
    by (cases root) simp_all
  from Cons.prems(1) root obtain n where n: "map_of ds y = Some n" "stat n ys = Inr (Dir es)"
    by (auto split: option.splits)
  from Cons.prems(3) root obtain z zs where x: "x = z # zs"
    by (cases x) (simp_all add: lookup_def)
  show ?case
  proof (cases "z = y")
    case False
    then show ?thesis
      using Cons.prems(3) by (simp add: root n(1) x lookup_def update_conv')
  next
    case True
    from Cons.prems(3) have "lookup n zs = Some (File t' m')"
      by (simp add: root x True n(1) lookup_def)
    moreover from Cons.prems(4) have "zs \<noteq> ys @ [k]"
      by (simp add: x True)
    ultimately have "lookup (upd_dir ys (AList.update k f) n) zs = Some (File t' m')"
      using n(2) Cons.prems(2) Cons.IH by blast
    then show ?thesis
      by (simp add: root n(1) x True lookup_def update_conv')
  qed
qed

lemma write_file_frame:
  assumes "write_file p shown (File t m) root = Inr r"
  shows "\<not> P (last p) \<Longrightarrow> filter P (scandir r d) = filter P (scandir root d)"
    and "lookup root x = Some (File t' m') \<Longrightarrow> x \<noteq> p \<Longrightarrow> lookup r x = Some (File t' m')"
    and "lookup r p = Some (File t m)"
    and "lookup (overwrite p (File t2 m2) r) p = Some (File t2 m2)"
proof -
  from assms obtain es where p: "p \<noteq> []" and r: "r = overwrite p (File t m) root"
    and d: "stat root (butlast p) = Inr (Dir es)"
    using write_file_Inr by blast
  from assms p d have nodir: "\<forall>ds. map_of es (last p) \<noteq> Some (Dir ds)"
    unfolding write_file_def by (auto split: option.splits node.splits)
  show "\<not> P (last p) \<Longrightarrow> filter P (scandir r d) = filter P (scandir root d)"
    unfolding r overwrite_def scandir_upd_dir_file [OF d nodir] by simp
  show "lookup root x = Some (File t' m') \<Longrightarrow> x \<noteq> p \<Longrightarrow> lookup r x = Some (File t' m')"
    unfolding r overwrite_def using p by (intro lookup_upd_dir_file [OF d nodir]) simp_all
  show "lookup r p = Some (File t m)"
    unfolding r using p d by (rule lookup_overwrite_same)
  have "stat r (butlast p) = Inr (Dir (AList.update (last p) (File t m) es))"
    unfolding r overwrite_def using d by (rule stat_upd_dir_same)
  with p show "lookup (overwrite p (File t2 m2) r) p = Some (File t2 m2)"
    by (rule lookup_overwrite_same)
qed

section \<open>The stages, branch by branch\<close>

subsection \<open>Rasterize\<close>

lemma pdf_to_png_raises:
  assumes "subprocess_run E (pdftoppm_cmd c) (fs s) = Raises e"
  shows "pdf_to_png E c s =
           pdf_to_png_except e
             (print (''  Running: '' @ join '' '' (pdftoppm_cmd c))
               (print ([NL] @ ''[2/4] Converting PDF to PNG sequence in '' @ str_path (png_dir c) @ ''/...'') s))"
  using assms unfolding pdf_to_png_def Let_def by simp

lemma pdf_to_png_nonzero:
  assumes "subprocess_run E (pdftoppm_cmd c) (fs s) = Completed rc err root" and "rc \<noteq> 0"
  shows "pdf_to_png E c s =
           (False,
            print (''  '' @ cross_mark @ '' pdftoppm failed: '' @ err)
              ((print (''  Running: '' @ join '' '' (pdftoppm_cmd c))
                 (print ([NL] @ ''[2/4] Converting PDF to PNG sequence in '' @ str_path (png_dir c) @ ''/...'') s))
               \<lparr> fs := root \<rparr>))"
  using assms unfolding pdf_to_png_def Let_def by simp

lemma pdf_to_png_zero:
  assumes "subprocess_run E (pdftoppm_cmd c) (fs s) = Completed 0 err root"
  shows "pdf_to_png E c s =
           (let s3 = (print (''  Running: '' @ join '' '' (pdftoppm_cmd c))
                       (print ([NL] @ ''[2/4] Converting PDF to PNG sequence in '' @ str_path (png_dir c) @ ''/...'') s))
                     \<lparr> fs := root \<rparr>
            in case rename_pages E (png_dir c)
                      (sort (glob root (location E (png_dir c)) ''page-'' ''.png'')) root of
                 (Some e, root') \<Rightarrow> pdf_to_png_except e (s3\<lparr> fs := root' \<rparr>)
               | (None, root') \<Rightarrow>
                   (True,
                    print (''  '' @ check_mark @ '' Created ''
                           @ str_nat (length (sort (glob root' (location E (png_dir c)) [] ''.png'')))
                           @ '' PNG images'')
                      (s3\<lparr> fs := root' \<rparr>)))"
proof (cases "rename_pages E (png_dir c)
                (sort (glob root (location E (png_dir c)) ''page-'' ''.png'')) root")
  case (Pair r root')
  then show ?thesis
    using assms unfolding pdf_to_png_def Let_def by (cases r) simp_all
qed

lemma pdf_to_png_except_fails [simp]: "fst (pdf_to_png_except e s) = False"
  by (simp add: pdf_to_png_except_def)

lemma pdf_to_png_except_fs [simp]: "fs (snd (pdf_to_png_except e s)) = fs s"
  by (simp add: pdf_to_png_except_def)

subsection \<open>Transcribe\<close>

lemma run_nougat_except_continues [simp]: "fst (run_nougat_except e s) = True"
  by (simp add: run_nougat_except_def)

lemma run_nougat_probe_raises:
  assumes "subprocess_run E [''which'', ''nougat''] (fs s) = Raises e"
  shows "run_nougat E c s = run_nougat_except e (print ([NL] @ ''[3/4] Running Nougat OCR...'') s)"
  using assms unfolding run_nougat_def Let_def by simp

lemma run_nougat_probe_nonzero:
  assumes "subprocess_run E [''which'', ''nougat''] (fs s) = Completed rc err root" and "rc \<noteq> 0"
  shows "run_nougat E c s =
           (False,
            print ''    pip install nougat-ocr''
              (print (''  '' @ cross_mark @ '' Nougat not found. Please install:'')
                ((print ([NL] @ ''[3/4] Running Nougat OCR...'') s)\<lparr> fs := root \<rparr>)))"
  using assms unfolding run_nougat_def Let_def by simp

lemma run_nougat_probe_zero:
  assumes "subprocess_run E [''which'', ''nougat''] (fs s) = Completed 0 err root"
  shows "fst (run_nougat E c s) = True"
proof -
  let ?s3 = "print (''  Running: '' @ join '' '' (nougat_cmd c))
               ((print ([NL] @ ''[3/4] Running Nougat OCR...'') s)\<lparr> fs := root \<rparr>)"
  show ?thesis
  proof (cases "subprocess_run E (nougat_cmd c) (fs ?s3)")
    case (Raises e)
    then show ?thesis
      using assms unfolding run_nougat_def Let_def by simp
  next
    case (Completed rc2 err2 root2)
    then show ?thesis
      using assms unfolding run_nougat_def Let_def by (simp split: list.split)
  qed
qed

subsection \<open>Emit\<close>

lemma generate_open_fails:
  assumes "write_file (location E (rmd_output c)) (str_path (rmd_output c)) (File [] (new_stat E)) (fs s) = Inl e"
  shows "generate_base_rmd E c s =
           generate_base_rmd_except e (print ([NL] @ ''[4/4] Generating R Markdown file...'') s)"
  using assms unfolding generate_base_rmd_def Let_def by simp

lemma generate_placeholder:
  assumes "write_file (location E (rmd_output c)) (str_path (rmd_output c)) (File [] (new_stat E)) (fs s) = Inr root0"
    and "glob root0 (location E (nougat_out c)) [] ''.mmd'' = []"
  shows "generate_base_rmd E c s =
           (True,
            print (''  '' @ check_mark @ '' Created '' @ str_path (rmd_output c))
              ((print ([NL] @ ''[4/4] Generating R Markdown file...'') s)
               \<lparr> fs := overwrite (location E (rmd_output c))
                         (File (rmd_header (pdf_name c)
                                @ placeholder (length (glob root0 (location E (png_dir c)) [] ''.png'')))
                               (new_stat E))
                         root0 \<rparr>))"
  using assms unfolding generate_base_rmd_def Let_def by simp

lemma generate_transcript:
  assumes "write_file (location E (rmd_output c)) (str_path (rmd_output c)) (File [] (new_stat E)) (fs s) = Inr root0"
    and "glob root0 (location E (nougat_out c)) [] ''.mmd'' = first # others"
    and "read_file (location E (nougat_out c) @ [first]) (str_path (slash (nougat_out c) first)) root0
           = Inr (transcript, m)"
  shows "generate_base_rmd E c s =
           (True,
            print (''  '' @ check_mark @ '' Created '' @ str_path (rmd_output c))
              ((print ([NL] @ ''[4/4] Generating R Markdown file...'') s)
               \<lparr> fs := overwrite (location E (rmd_output c))
                         (File (rmd_header (pdf_name c) @ transcript_marker @ rstrip transcript @ [NL])
                               (new_stat E))
                         root0 \<rparr>))"
  using assms unfolding generate_base_rmd_def Let_def by simp

section \<open>The sample run up to the first stage\<close>

lemma doc_conv_attributes: "attributes doc_path = doc_conv"
  by (simp add: attributes_def doc_conv_def doc_path_def Path_def slash_def joinpath_def
      startswith_def stem_def name_def)

lemma doc_input: "get_pdf_input (env_doc t) demo_state = (Inr (Some doc_path), doc_validated)"
  by (simp add: get_pdf_input_def env_doc_def demo_state_def demo_root_def doc_validated_def
      doc_path_def Path_def startswith_def location_def lookup_def suffix_def name_def
      lower_def lower_char_def str_path_def)

lemma doc_init: "PDFConverter (env_doc t) doc_path doc_validated = (Inr doc_conv, doc_ready)"
  by (simp add: PDFConverter_def doc_conv_attributes mkdir_def location_def doc_conv_def
      env_doc_def doc_validated_def doc_ready_def demo_state_def demo_root_def work_tree_def
      print_def)

lemma doc_copy: "copy_pdf (env_doc t) doc_conv (banner doc_ready) = (True, doc_staged)"
  by (simp add: copy_pdf_def exists_def location_def lookup_def copy2_def is_dir_def
      read_file_def write_file_def overwrite_def doc_conv_def doc_path_def env_doc_def
      doc_ready_def doc_staged_def work_tree_def str_path_def name_def banner_def)

lemma doc_pages:
  assumes "t (pdftoppm_cmd doc_conv) (fs doc_staged) = Completed 0 [] (one_page (fs doc_staged))"
  shows "pdf_to_png (env_doc t) doc_conv doc_staged = (True, doc_paged)"
proof -
  have run: "subprocess_run (env_doc t) (pdftoppm_cmd doc_conv) (fs doc_staged) =
      Completed 0 [] (work_tree [(''doc.pdf'', File ''%PDF-1.4'' 420)] [(''page-1.png'', File ''PNG'' 420)] [])"
    using assms by (simp add: env_doc_def one_page_def doc_staged_def work_tree_def overwrite_def)
  have loc: "location (env_doc t) (png_dir doc_conv) = [''w'', ''assets'', ''out'', ''png'']"
    by (simp add: location_def env_doc_def doc_conv_def)
  have pages: "glob (work_tree [(''doc.pdf'', File ''%PDF-1.4'' 420)] [(''page-1.png'', File ''PNG'' 420)] [])
      [''w'', ''assets'', ''out'', ''png''] ''page-'' ''.png'' = [''page-1.png'']"
    by (simp add: glob_def scandir_def lookup_def work_tree_def fnmatch_star_def startswith_def
        endswith_def)
  have renamed: "rename_pages (env_doc t) (png_dir doc_conv) [''page-1.png'']
      (work_tree [(''doc.pdf'', File ''%PDF-1.4'' 420)] [(''page-1.png'', File ''PNG'' 420)] []) =
      (None, work_tree [(''doc.pdf'', File ''%PDF-1.4'' 420)] [(''1.png'', File ''PNG'' 420)] [])"
    by (simp add: match_page_at_def startswith_def isdigit_def int_of_digits_def digit_val_def
        str_nat.simps digit_char_def rename_def rename_in_def loc lookup_def work_tree_def)
  have counted: "glob (work_tree [(''doc.pdf'', File ''%PDF-1.4'' 420)] [(''1.png'', File ''PNG'' 420)] [])
      [''w'', ''assets'', ''out'', ''png''] [] ''.png'' = [''1.png'']"
    by (simp add: glob_def scandir_def lookup_def work_tree_def fnmatch_star_def startswith_def
        endswith_def)
  have names: "str_path (png_dir doc_conv) = ''assets/out/png''"
    "join '' '' (pdftoppm_cmd doc_conv) = ''pdftoppm -png -r 150 assets/in/doc.pdf assets/out/png/page''"
    by (simp_all add: doc_conv_def str_path_def pdftoppm_cmd_def slash_def joinpath_def Path_def
        startswith_def)
  show ?thesis
    unfolding pdf_to_png_zero [OF run] loc pages
    by (simp add: renamed counted names doc_paged_def str_nat.simps digit_char_def
        del: rename_pages.simps)
qed

lemma doc_ocr_fails:
  "run_nougat (env_doc tools_ocr_fails) doc_conv doc_paged = (True, doc_ocr_failed)"
proof -
  have cmd: "nougat_cmd doc_conv =
      [''nougat'', ''assets/in/doc.pdf'', ''-o'', ''assets/out/nougat'', ''--no-skipping'']"
    by (simp add: nougat_cmd_def doc_conv_def str_path_def)
  have none: "glob (fs doc_paged) (location (env_doc tools_ocr_fails) (nougat_out doc_conv)) [] ''.mmd'' = []"
    by (simp add: glob_def scandir_def lookup_def location_def env_doc_def doc_conv_def
        doc_paged_def work_tree_def)
  show ?thesis
    unfolding run_nougat_def Let_def cmd
    by (simp add: env_doc_def [of tools_ocr_fails] tools_ocr_fails_def none [unfolded env_doc_def]
        doc_ocr_failed_def)
qed

lemma doc_placeholder_written:
  "fst (generate_base_rmd (env_doc t) doc_conv doc_ocr_failed) = True
   \<and> lookup (fs (snd (generate_base_rmd (env_doc t) doc_conv doc_ocr_failed)))
         [''w'', ''assets'', ''out'', ''doc.Rmd'']
       = Some (File (rmd_header ''doc'' @ placeholder 1) 420)"
proof -
  let ?root0 = "Dir [(''w'',
           Dir [(''doc.pdf'', File ''%PDF-1.4'' 420),
                (''report.txt'', File ''text'' 420),
                (''assets'',
                 Dir [(''in'', Dir [(''doc.pdf'', File ''%PDF-1.4'' 420)]),
                      (''out'', Dir ([(''png'', Dir [(''1.png'', File ''PNG'' 420)]), (''nougat'', Dir []),
                                      (''doc.Rmd'', File [] 420)]))])])]"
  have loc: "location (env_doc t) (rmd_output doc_conv) = [''w'', ''assets'', ''out'', ''doc.Rmd'']"
    "location (env_doc t) (nougat_out doc_conv) = [''w'', ''assets'', ''out'', ''nougat'']"
    "location (env_doc t) (png_dir doc_conv) = [''w'', ''assets'', ''out'', ''png'']"
    "new_stat (env_doc t) = 420" "pdf_name doc_conv = ''doc''"
    by (simp_all add: location_def env_doc_def doc_conv_def)
  have tree: "fs doc_ocr_failed =
      work_tree [(''doc.pdf'', File ''%PDF-1.4'' 420)] [(''1.png'', File ''PNG'' 420)] []"
    by (simp add: doc_ocr_failed_def doc_paged_def)
  have opened: "write_file (location (env_doc t) (rmd_output doc_conv)) (str_path (rmd_output doc_conv))
      (File [] (new_stat (env_doc t))) (fs doc_ocr_failed) = Inr ?root0"
    unfolding loc tree by (simp add: write_file_def overwrite_def work_tree_def)
  have none: "glob ?root0 (location (env_doc t) (nougat_out doc_conv)) [] ''.mmd'' = []"
    unfolding loc by (simp add: glob_def scandir_def lookup_def)
  have one: "glob ?root0 (location (env_doc t) (png_dir doc_conv)) [] ''.png'' = [''1.png'']"
    unfolding loc by (simp add: glob_def scandir_def lookup_def fnmatch_star_def startswith_def endswith_def)
  show ?thesis
    unfolding generate_placeholder [OF opened none] loc one [unfolded loc]
    by (simp add: overwrite_def lookup_def)
qed

section \<open>The pipeline\<close>

lemma main_converts:
  assumes "get_pdf_input E s = (Inr (Some p), s0)" and "PDFConverter E p s0 = (Inr c, s1)"
  shows "main E s = (Inr (fst (convert E c s1)), snd (convert E c s1))"
  using assms by (simp add: main_def split_beta)

lemma convert_stops_at_pages:
  assumes "copy_pdf E c (banner s) = (True, s1)" and "\<not> fst (pdf_to_png E c s1)"
  shows "convert E c s = (1, snd (pdf_to_png E c s1))"
  using assms by (simp add: convert_def split_beta)

lemma convert_after_pages:
  assumes "copy_pdf E c (banner s) = (True, s1)" and "pdf_to_png E c s1 = (True, s2)"
  shows "convert E c s =
           (if fst (run_nougat E c s2) then finish c (generate_base_rmd E c (snd (run_nougat E c s2)))
            else (1, snd (run_nougat E c s2)))"
  using assms by (simp add: convert_def split_beta finish_def)

lemma run_nougat_continues:
  "fst (run_nougat E c s) = (\<not> ocr_unresolvable E (fs s))"
proof (cases "subprocess_run E [''which'', ''nougat''] (fs s)")
  case (Raises e)
  then show ?thesis
    by (simp add: run_nougat_probe_raises ocr_unresolvable_def)
next
  case (Completed rc err root)
  show ?thesis
  proof (cases "rc = 0")
    case True
    with Completed show ?thesis
      by (simp add: run_nougat_probe_zero ocr_unresolvable_def)
  next
    case False
    with Completed show ?thesis
      by (simp add: run_nougat_probe_nonzero ocr_unresolvable_def)
  qed
qed

text \<open>
  C9. The rasterize stage is fatal. When the rasterizer cannot be found, or runs and
  returns a code other than 0, the stage reports it (with the text of the tool's error
  stream in the second case), the run ends in the state that stage left, so that no
  later stage has run, and the exit status is 1.
\<close>

theorem rasterizer_failure_is_fatal:
  assumes got: "get_pdf_input E s = (Inr (Some p), s0)"
    and made: "PDFConverter E p s0 = (Inr c, s1)"
    and copied: "copy_pdf E c (banner s1) = (True, s2)"
    and fails: "case subprocess_run E (pdftoppm_cmd c) (fs s2) of
                  Raises e \<Rightarrow> is_FileNotFoundError e
                | Completed rc err root \<Rightarrow> rc \<noteq> 0"
  shows "exit_status (fst (main E s)) = 1
       \<and> snd (main E s) = snd (pdf_to_png E c s2)
       \<and> (case subprocess_run E (pdftoppm_cmd c) (fs s2) of
            Raises e \<Rightarrow>
              fs (snd (main E s)) = fs s2
              \<and> stdout (snd (main E s)) =
                  stdout s2 @
                  [[NL] @ ''[2/4] Converting PDF to PNG sequence in '' @ str_path (png_dir c) @ ''/...'',
                   ''  Running: '' @ join '' '' (pdftoppm_cmd c),
                   ''  '' @ cross_mark @ '' pdftoppm not found. Please install poppler-utils:'',
                   ''    sudo apt-get install poppler-utils'']
          | Completed rc err root \<Rightarrow>
              fs (snd (main E s)) = root
              \<and> stdout (snd (main E s)) =
                  stdout s2 @
                  [[NL] @ ''[2/4] Converting PDF to PNG sequence in '' @ str_path (png_dir c) @ ''/...'',
                   ''  Running: '' @ join '' '' (pdftoppm_cmd c),
                   ''  '' @ cross_mark @ '' pdftoppm failed: '' @ err])"
proof (cases "subprocess_run E (pdftoppm_cmd c) (fs s2)")
  case (Raises e)
  with fails have nf: "is_FileNotFoundError e"
    by simp
  have stage: "pdf_to_png E c s2 =
      pdf_to_png_except e
        (print (''  Running: '' @ join '' '' (pdftoppm_cmd c))
          (print ([NL] @ ''[2/4] Converting PDF to PNG sequence in '' @ str_path (png_dir c) @ ''/...'') s2))"
    using Raises by (rule pdf_to_png_raises)
  then have "\<not> fst (pdf_to_png E c s2)"
    by simp
  with copied have "convert E c s1 = (1, snd (pdf_to_png E c s2))"
    by (rule convert_stops_at_pages)
  with got made have "main E s = (Inr 1, snd (pdf_to_png E c s2))"
    by (simp add: main_converts)
  then show ?thesis
    using Raises nf by (simp add: exit_status_def stage pdf_to_png_except_def)
next
  case (Completed rc err root)
  with fails have nz: "rc \<noteq> 0"
    by simp
  have stage: "pdf_to_png E c s2 =
      (False,
       print (''  '' @ cross_mark @ '' pdftoppm failed: '' @ err)
         ((print (''  Running: '' @ join '' '' (pdftoppm_cmd c))
            (print ([NL] @ ''[2/4] Converting PDF to PNG sequence in '' @ str_path (png_dir c) @ ''/...'') s2))
          \<lparr> fs := root \<rparr>))"
    using Completed nz by (rule pdf_to_png_nonzero)
  then have "\<not> fst (pdf_to_png E c s2)"
    by simp
  with copied have "convert E c s1 = (1, snd (pdf_to_png E c s2))"
    by (rule convert_stops_at_pages)
  with got made have "main E s = (Inr 1, snd (pdf_to_png E c s2))"
    by (simp add: main_converts)
  then show ?thesis
    using Completed by (simp add: exit_status_def stage)
qed

theorem rasterizer_failure_is_fatal_witness:
  "exit_status (fst (main (env_doc tools_broken_pdf) demo_state)) = 1
   \<and> fs (snd (main (env_doc tools_broken_pdf) demo_state)) = fs doc_staged
   \<and> stdout (snd (main (env_doc tools_broken_pdf) demo_state)) =
       stdout doc_staged @
       [[NL] @ ''[2/4] Converting PDF to PNG sequence in assets/out/png/...'',
        ''  Running: pdftoppm -png -r 150 assets/in/doc.pdf assets/out/png/page'',
        ''  '' @ cross_mark @ '' pdftoppm failed: Syntax Error: broken xref table'']"
proof -
  have run: "subprocess_run (env_doc tools_broken_pdf) (pdftoppm_cmd doc_conv) (fs doc_staged) =
      Completed 1 ''Syntax Error: broken xref table'' (fs doc_staged)"
    by (simp add: env_doc_def tools_broken_pdf_def pdftoppm_cmd_def)
  then have fails: "case subprocess_run (env_doc tools_broken_pdf) (pdftoppm_cmd doc_conv) (fs doc_staged) of
                  Raises e \<Rightarrow> is_FileNotFoundError e
                | Completed rc err root \<Rightarrow> rc \<noteq> 0"
    by simp
  have names: "str_path (png_dir doc_conv) = ''assets/out/png''"
    "join '' '' (pdftoppm_cmd doc_conv) = ''pdftoppm -png -r 150 assets/in/doc.pdf assets/out/png/page''"
    by (simp_all add: doc_conv_def str_path_def pdftoppm_cmd_def slash_def joinpath_def Path_def
        startswith_def)
  note fatal = rasterizer_failure_is_fatal [OF doc_input doc_init doc_copy fails, unfolded run proc.case]
  from fatal have status: "exit_status (fst (main (env_doc tools_broken_pdf) demo_state)) = 1"
    by (rule conjunct1)
  from fatal have report:
    "fs (snd (main (env_doc tools_broken_pdf) demo_state)) = fs doc_staged
     \<and> stdout (snd (main (env_doc tools_broken_pdf) demo_state)) =
         stdout doc_staged @
         [[NL] @ ''[2/4] Converting PDF to PNG sequence in '' @ str_path (png_dir doc_conv) @ ''/...'',
          ''  Running: '' @ join '' '' (pdftoppm_cmd doc_conv),
          ''  '' @ cross_mark @ '' pdftoppm failed: '' @ ''Syntax Error: broken xref table'']"
    by (rule conjunct2 [THEN conjunct2])
  show ?thesis
    using status report unfolding names by simp
qed

text \<open>
  C1, as the program has it. For a run that reaches the OCR stage: unless the probe
  \<open>which nougat\<close> runs and returns a code other than 0, the stage returns success
  whatever the OCR tool does (its return code, no transcript, an exception while probing
  or running), and the run goes on to write the document and returns what that last
  stage decides. When the probe does return another code, the stage fails, the run ends
  with code 1 in the state the probe left plus three printed lines, and the document
  stage is not run.
\<close>

theorem ocr_stage_gate:
  assumes copied: "copy_pdf E c (banner s) = (True, s1)"
    and rasterized: "pdf_to_png E c s1 = (True, s2)"
  shows "(\<not> ocr_unresolvable E (fs s2) \<longrightarrow>
            fst (run_nougat E c s2)
            \<and> convert E c s = finish c (generate_base_rmd E c (snd (run_nougat E c s2))))
       \<and> (\<forall>rc err root.
            subprocess_run E [''which'', ''nougat''] (fs s2) = Completed rc err root \<and> rc \<noteq> 0 \<longrightarrow>
            convert E c s =
              (1, print ''    pip install nougat-ocr''
                    (print (''  '' @ cross_mark @ '' Nougat not found. Please install:'')
                      ((print ([NL] @ ''[3/4] Running Nougat OCR...'') s2)\<lparr> fs := root \<rparr>))))"
proof (intro conjI impI allI)
  assume "\<not> ocr_unresolvable E (fs s2)"
  then show "fst (run_nougat E c s2)"
    by (simp add: run_nougat_continues)
next
  assume "\<not> ocr_unresolvable E (fs s2)"
  then have "fst (run_nougat E c s2)"
    by (simp add: run_nougat_continues)
  then show "convert E c s = finish c (generate_base_rmd E c (snd (run_nougat E c s2)))"
    by (simp add: convert_after_pages [OF copied rasterized])
next
  fix rc err root
  assume "subprocess_run E [''which'', ''nougat''] (fs s2) = Completed rc err root \<and> rc \<noteq> 0"
  then have "run_nougat E c s2 =
      (False,
       print ''    pip install nougat-ocr''
         (print (''  '' @ cross_mark @ '' Nougat not found. Please install:'')
           ((print ([NL] @ ''[3/4] Running Nougat OCR...'') s2)\<lparr> fs := root \<rparr>)))"
    by (simp add: run_nougat_probe_nonzero)
  then show "convert E c s =
      (1, print ''    pip install nougat-ocr''
            (print (''  '' @ cross_mark @ '' Nougat not found. Please install:'')
              ((print ([NL] @ ''[3/4] Running Nougat OCR...'') s2)\<lparr> fs := root \<rparr>)))"
    by (simp add: convert_after_pages [OF copied rasterized])
qed

theorem ocr_stage_gate_witness:
  "\<not> ocr_unresolvable (env_doc tools_ocr_fails) (fs doc_paged)
   \<and> fst (convert (env_doc tools_ocr_fails) doc_conv doc_ready) = 0
   \<and> lookup (fs (snd (convert (env_doc tools_ocr_fails) doc_conv doc_ready)))
        [''w'', ''assets'', ''out'', ''doc.Rmd'']
      = Some (File (rmd_header ''doc'' @ placeholder 1) 420)"
proof -
  have found: "\<not> ocr_unresolvable (env_doc tools_ocr_fails) (fs doc_paged)"
    by (simp add: ocr_unresolvable_def env_doc_def tools_ocr_fails_def)
  have pages: "pdf_to_png (env_doc tools_ocr_fails) doc_conv doc_staged = (True, doc_paged)"
    by (rule doc_pages) (simp add: tools_ocr_fails_def pdftoppm_cmd_def)
  from ocr_stage_gate [OF doc_copy pages] found
  have "convert (env_doc tools_ocr_fails) doc_conv doc_ready =
      finish doc_conv (generate_base_rmd (env_doc tools_ocr_fails) doc_conv doc_ocr_failed)"
    by (simp add: doc_ocr_fails)
  then show ?thesis
    using found doc_placeholder_written [of tools_ocr_fails]
    by (simp add: finish_def summary_def)
qed

text \<open>
  C1 as stated fails: with a rasterizer that works and no \<open>nougat\<close> on the path, the run
  on \<open>/w/doc.pdf\<close> reaches the OCR stage, ends with exit status 1, and leaves no
  document \<open>assets/out/doc.Rmd\<close>.
\<close>

theorem ocr_missing_counterexample:
  "exit_status (fst (main (env_doc tools_no_ocr) demo_state)) = 1
   \<and> fs (snd (main (env_doc tools_no_ocr) demo_state)) =
       work_tree [(''doc.pdf'', File ''%PDF-1.4'' 420)] [(''1.png'', File ''PNG'' 420)] []
   \<and> lookup (fs (snd (main (env_doc tools_no_ocr) demo_state)))
        [''w'', ''assets'', ''out'', ''doc.Rmd''] = None
   \<and> stdout (snd (main (env_doc tools_no_ocr) demo_state)) =
       stdout doc_paged @
       [[NL] @ ''[3/4] Running Nougat OCR...'',
        ''  '' @ cross_mark @ '' Nougat not found. Please install:'',
        ''    pip install nougat-ocr'']"
proof -
  have pages: "pdf_to_png (env_doc tools_no_ocr) doc_conv doc_staged = (True, doc_paged)"
    by (rule doc_pages) (simp add: tools_no_ocr_def pdftoppm_cmd_def)
  have probe: "subprocess_run (env_doc tools_no_ocr) [''which'', ''nougat''] (fs doc_paged) =
      Completed 1 [] (fs doc_paged)"
    by (simp add: env_doc_def tools_no_ocr_def)
  have "run_nougat (env_doc tools_no_ocr) doc_conv doc_paged =
      (False,
       print ''    pip install nougat-ocr''
         (print (''  '' @ cross_mark @ '' Nougat not found. Please install:'')
           ((print ([NL] @ ''[3/4] Running Nougat OCR...'') doc_paged)\<lparr> fs := fs doc_paged \<rparr>)))"
    using probe by (rule run_nougat_probe_nonzero) simp
  then have "convert (env_doc tools_no_ocr) doc_conv doc_ready =
      (1, print ''    pip install nougat-ocr''
            (print (''  '' @ cross_mark @ '' Nougat not found. Please install:'')
              ((print ([NL] @ ''[3/4] Running Nougat OCR...'') doc_paged)\<lparr> fs := fs doc_paged \<rparr>)))"
    by (simp add: convert_after_pages [OF doc_copy pages])
  then have "main (env_doc tools_no_ocr) demo_state =
      (Inr 1, print ''    pip install nougat-ocr''
            (print (''  '' @ cross_mark @ '' Nougat not found. Please install:'')
              ((print ([NL] @ ''[3/4] Running Nougat OCR...'') doc_paged)\<lparr> fs := fs doc_paged \<rparr>)))"
    by (simp add: main_converts [OF doc_input doc_init])
  then show ?thesis
    by (simp add: exit_status_def doc_paged_def lookup_def work_tree_def)
qed

section \<open>Stage A: copy\<close>

lemma copy_pdf_present:
  assumes "exists E (fs s) (copied_pdf c)"
  shows "copy_pdf E c s =
           (True,
            print (''  '' @ info_mark @ '' PDF already exists at '' @ str_path (copied_pdf c))
              (print ([NL] @ ''[1/4] Copying PDF to '' @ str_path (assets_in c) @ ''/...'') s))"
  using assms unfolding copy_pdf_def Let_def by simp

lemma copy_pdf_absent:
  assumes "\<not> exists E (fs s) (copied_pdf c)"
  shows "copy_pdf E c s =
           (case copy2 E (pdf_path c) (copied_pdf c) (fs s) of
              Inr r \<Rightarrow>
                (True,
                 print (''  '' @ check_mark @ '' Copied '' @ name (pdf_path c))
                   ((print ([NL] @ ''[1/4] Copying PDF to '' @ str_path (assets_in c) @ ''/...'') s)
                    \<lparr> fs := r \<rparr>))
            | Inl e \<Rightarrow>
                (False,
                 print (''  '' @ cross_mark @ '' Error copying PDF: '' @ str_exn e)
                   (print ([NL] @ ''[1/4] Copying PDF to '' @ str_path (assets_in c) @ ''/...'') s)))"
  using assms unfolding copy_pdf_def Let_def by simp

lemma copy2_absent:
  assumes "\<not> exists E root dst"
  shows "copy2 E src dst root =
           (case read_file (location E src) (str_path src) root of
              Inl e \<Rightarrow> Inl e
            | Inr (content, stat_result) \<Rightarrow>
                write_file (location E dst) (str_path dst) (File content stat_result) root)"
proof -
  from assms have "\<not> is_dir E root dst"
    by (simp add: exists_def is_dir_def)
  then show ?thesis
    by (simp add: copy2_def)
qed

lemma copy2_makes_entry:
  assumes "\<not> exists E root dst" and "copy2 E src dst root = Inr r"
  shows "exists E r dst \<and> lookup r (location E dst) = lookup root (location E src)"
proof -
  from assms obtain t m where f: "read_file (location E src) (str_path src) root = Inr (t, m)"
    and w: "write_file (location E dst) (str_path dst) (File t m) root = Inr r"
    by (auto simp: copy2_absent split: sum.splits)
  from w obtain es where p: "location E dst \<noteq> []" and r: "r = overwrite (location E dst) (File t m) root"
    and d: "stat root (butlast (location E dst)) = Inr (Dir es)"
    using write_file_Inr by blast
  have "lookup r (location E dst) = Some (File t m)"
    unfolding r using p d by (rule lookup_overwrite_same)
  moreover from f have "lookup root (location E src) = Some (File t m)"
    by (simp add: read_file_Inr)
  ultimately show ?thesis
    by (simp add: exists_def)
qed

text \<open>
  C8. Stage A is idempotent. If the staged copy is there, the stage succeeds and leaves
  the file system as it is. If it is not there, the source is a regular file and the
  staged-input directory exists, the stage succeeds and the staged entry is the source's
  text with the source's metadata. In every case a second run of the stage returns what
  the first returned and leaves the file system the first run left.
\<close>

theorem copy_stage_idempotent:
  "(exists E (fs s) (copied_pdf c) \<longrightarrow>
      fst (copy_pdf E c s) \<and> fs (snd (copy_pdf E c s)) = fs s)
   \<and> (\<not> exists E (fs s) (copied_pdf c)
        \<and> lookup (fs s) (location E (pdf_path c)) = Some (File t m)
        \<and> lookup (fs s) (butlast (location E (copied_pdf c))) = Some (Dir es) \<longrightarrow>
      fst (copy_pdf E c s)
      \<and> lookup (fs (snd (copy_pdf E c s))) (location E (copied_pdf c)) = Some (File t m))
   \<and> fst (copy_pdf E c (snd (copy_pdf E c s))) = fst (copy_pdf E c s)
   \<and> fs (snd (copy_pdf E c (snd (copy_pdf E c s)))) = fs (snd (copy_pdf E c s))"
proof (intro conjI impI)
  assume "exists E (fs s) (copied_pdf c)"
  then show "fst (copy_pdf E c s)" "fs (snd (copy_pdf E c s)) = fs s"
    by (simp_all add: copy_pdf_present)
next
  assume a: "\<not> exists E (fs s) (copied_pdf c)
        \<and> lookup (fs s) (location E (pdf_path c)) = Some (File t m)
        \<and> lookup (fs s) (butlast (location E (copied_pdf c))) = Some (Dir es)"
  let ?p = "location E (copied_pdf c)"
  from a have absent: "\<not> exists E (fs s) (copied_pdf c)"
    by simp
  then have ne: "?p \<noteq> []"
    by (auto simp: exists_def lookup_def)
  from a have dir: "stat (fs s) (butlast ?p) = Inr (Dir es)"
    by (auto simp: lookup_def split: sum.splits)
  from absent ne dir have "map_of es (last ?p) = None"
    using lookup_child [OF dir, of "last ?p"] by (simp add: exists_def)
  then have w: "write_file ?p (str_path (copied_pdf c)) (File t m) (fs s) = Inr (overwrite ?p (File t m) (fs s))"
    using ne dir by (intro write_file_Dir) auto
  from a have "read_file (location E (pdf_path c)) (str_path (pdf_path c)) (fs s) = Inr (t, m)"
    by (simp add: read_file_Inr)
  with w absent have copy: "copy2 E (pdf_path c) (copied_pdf c) (fs s) = Inr (overwrite ?p (File t m) (fs s))"
    by (simp add: copy2_absent)
  show "fst (copy_pdf E c s)"
    by (simp add: copy_pdf_absent [OF absent] copy)
  show "lookup (fs (snd (copy_pdf E c s))) ?p = Some (File t m)"
    using lookup_overwrite_same [OF ne dir] by (simp add: copy_pdf_absent [OF absent] copy)
next
  show "fst (copy_pdf E c (snd (copy_pdf E c s))) = fst (copy_pdf E c s)"
  proof (cases "exists E (fs s) (copied_pdf c)")
    case True
    then show ?thesis
      by (simp add: copy_pdf_present)
  next
    case False
    show ?thesis
    proof (cases "copy2 E (pdf_path c) (copied_pdf c) (fs s)")
      case (Inl e)
      with False show ?thesis
        by (simp add: copy_pdf_absent)
    next
      case (Inr r)
      with False have "exists E r (copied_pdf c)"
        using copy2_makes_entry by blast
      with False Inr show ?thesis
        by (simp add: copy_pdf_absent [OF False] copy_pdf_present)
    qed
  qed
next
  show "fs (snd (copy_pdf E c (snd (copy_pdf E c s)))) = fs (snd (copy_pdf E c s))"
  proof (cases "exists E (fs s) (copied_pdf c)")
    case True
    then show ?thesis
      by (simp add: copy_pdf_present)
  next
    case False
    show ?thesis
    proof (cases "copy2 E (pdf_path c) (copied_pdf c) (fs s)")
      case (Inl e)
      with False show ?thesis
        by (simp add: copy_pdf_absent)
    next
      case (Inr r)
      with False have "exists E r (copied_pdf c)"
        using copy2_makes_entry by blast
      with False Inr show ?thesis
        by (simp add: copy_pdf_absent [OF False] copy_pdf_present)
    qed
  qed
qed

theorem copy_stage_idempotent_witness:
  "\<not> exists (env_doc silent_tools) (fs (banner doc_ready)) (copied_pdf doc_conv)
   \<and> fst (copy_pdf (env_doc silent_tools) doc_conv (banner doc_ready))
   \<and> lookup (fs doc_staged) [''w'', ''assets'', ''in'', ''doc.pdf''] = Some (File ''%PDF-1.4'' 420)
   \<and> fst (copy_pdf (env_doc silent_tools) doc_conv doc_staged)
   \<and> fs (snd (copy_pdf (env_doc silent_tools) doc_conv doc_staged)) = fs doc_staged"
proof -
  have absent: "\<not> exists (env_doc silent_tools) (fs (banner doc_ready)) (copied_pdf doc_conv)"
    by (simp add: exists_def location_def lookup_def env_doc_def doc_conv_def banner_def
        doc_ready_def work_tree_def)
  have staged: "lookup (fs doc_staged) [''w'', ''assets'', ''in'', ''doc.pdf''] = Some (File ''%PDF-1.4'' 420)"
    by (simp add: lookup_def doc_staged_def work_tree_def)
  show ?thesis
    using copy_stage_idempotent [of "env_doc silent_tools" "banner doc_ready" doc_conv]
      absent staged
    by (simp add: doc_copy)
qed

section \<open>The stages read the staged copy\<close>

lemma attributes_same_name:
  assumes "name p = name p'"
  shows "attributes p' = (attributes p)\<lparr> pdf_path := p' \<rparr>"
  using assms by (simp add: attributes_def stem_def)

lemma fields_pdf_path:
  "pdf_name (c\<lparr> pdf_path := q \<rparr>) = pdf_name c"
  "assets_in (c\<lparr> pdf_path := q \<rparr>) = assets_in c"
  "assets_out (c\<lparr> pdf_path := q \<rparr>) = assets_out c"
  "png_dir (c\<lparr> pdf_path := q \<rparr>) = png_dir c"
  "nougat_out (c\<lparr> pdf_path := q \<rparr>) = nougat_out c"
  "copied_pdf (c\<lparr> pdf_path := q \<rparr>) = copied_pdf c"
  "rmd_output (c\<lparr> pdf_path := q \<rparr>) = rmd_output c"
  by simp_all

lemma pdf_to_png_pdf_path: "pdf_to_png E (c\<lparr> pdf_path := q \<rparr>) s = pdf_to_png E c s"
  unfolding pdf_to_png_def pdftoppm_cmd_def fields_pdf_path by (rule refl)

lemma run_nougat_pdf_path: "run_nougat E (c\<lparr> pdf_path := q \<rparr>) s = run_nougat E c s"
  unfolding run_nougat_def nougat_cmd_def fields_pdf_path by (rule refl)

lemma generate_base_rmd_pdf_path: "generate_base_rmd E (c\<lparr> pdf_path := q \<rparr>) s = generate_base_rmd E c s"
  unfolding generate_base_rmd_def fields_pdf_path by (rule refl)

lemma copy_pdf_pdf_path:
  assumes "exists E (fs s) (copied_pdf c)"
  shows "copy_pdf E (c\<lparr> pdf_path := q \<rparr>) s = copy_pdf E c s"
  using assms by (simp add: copy_pdf_present)

lemma summary_pdf_path: "summary (c\<lparr> pdf_path := q \<rparr>) s = summary c s"
  unfolding summary_def fields_pdf_path by (rule refl)

lemma convert_pdf_path:
  assumes "exists E (fs s) (copied_pdf c)"
  shows "convert E (c\<lparr> pdf_path := q \<rparr>) s = convert E c s"
proof -
  have "exists E (fs (banner s)) (copied_pdf c)"
    using assms by (simp add: banner_def)
  then have "copy_pdf E (c\<lparr> pdf_path := q \<rparr>) (banner s) = copy_pdf E c (banner s)"
    by (rule copy_pdf_pdf_path)
  then show ?thesis
    unfolding convert_def pdf_to_png_pdf_path run_nougat_pdf_path generate_base_rmd_pdf_path
      summary_pdf_path
    by simp
qed

text \<open>What the two stages ask of the outside world, and what of its answer they keep.\<close>

lemma rename_tools: "rename (E\<lparr> subprocess_run := t \<rparr>) d a b root = rename E d a b root"
  by (simp add: rename_def)

lemma rename_pages_tools:
  "rename_pages (E\<lparr> subprocess_run := t \<rparr>) d ps root = rename_pages E d ps root"
  by (induction ps arbitrary: root) (simp_all add: rename_tools split: option.split sum.split)

lemma pdf_to_png_tools:
  assumes "t (pdftoppm_cmd c) (fs s) = subprocess_run E (pdftoppm_cmd c) (fs s)"
  shows "pdf_to_png (E\<lparr> subprocess_run := t \<rparr>) c s = pdf_to_png E c s"
proof (cases "subprocess_run E (pdftoppm_cmd c) (fs s)")
  case (Raises e)
  with assms have "subprocess_run (E\<lparr> subprocess_run := t \<rparr>) (pdftoppm_cmd c) (fs s) = Raises e"
    by simp
  then show ?thesis
    by (simp add: pdf_to_png_raises Raises)
next
  case (Completed rc err root)
  with assms have run: "subprocess_run (E\<lparr> subprocess_run := t \<rparr>) (pdftoppm_cmd c) (fs s) = Completed rc err root"
    by simp
  show ?thesis
  proof (cases "rc = 0")
    case False
    then show ?thesis
      by (simp add: pdf_to_png_nonzero [OF run] pdf_to_png_nonzero [OF Completed])
  next
    case True
    show ?thesis
      unfolding pdf_to_png_zero [OF run [unfolded True]] pdf_to_png_zero [OF Completed [unfolded True]]
        location_tools rename_pages_tools
      by (rule refl)
  qed
qed

lemma pdf_to_png_keeps:
  assumes "subprocess_run E (pdftoppm_cmd c) (fs s) = Completed 0 err root"
  shows "fs (snd (pdf_to_png E c s)) =
           snd (rename_pages E (png_dir c) (sort (glob root (location E (png_dir c)) ''page-'' ''.png'')) root)"
proof (cases "rename_pages E (png_dir c) (sort (glob root (location E (png_dir c)) ''page-'' ''.png'')) root")
  case (Pair r root')
  then show ?thesis
    by (cases r) (simp_all add: pdf_to_png_zero [OF assms] Let_def)
qed

lemma run_nougat_ran:
  assumes "subprocess_run E [''which'', ''nougat''] (fs s) = Completed 0 err1 root1"
    and "subprocess_run E (nougat_cmd c) root1 = Completed rc err root2"
  shows "fst (run_nougat E c s) \<and> fs (snd (run_nougat E c s)) = root2
       \<and> (rc \<noteq> 0 \<longrightarrow>
            ''  '' @ warn_mark @ '' Nougat encountered issues: '' @ err \<in> set (stdout (snd (run_nougat E c s))))"
proof (cases "glob root2 (location E (nougat_out c)) [] ''.mmd''")
  case Nil
  then show ?thesis
    using assms unfolding run_nougat_def Let_def by simp
next
  case (Cons first others)
  then show ?thesis
    using assms unfolding run_nougat_def Let_def by simp
qed

lemma run_nougat_tools:
  assumes probe: "t [''which'', ''nougat''] (fs s) = subprocess_run E [''which'', ''nougat''] (fs s)"
    and tool: "\<forall>rc err root1. subprocess_run E [''which'', ''nougat''] (fs s) = Completed rc err root1 \<longrightarrow>
                 t (nougat_cmd c) root1 = subprocess_run E (nougat_cmd c) root1"
  shows "run_nougat (E\<lparr> subprocess_run := t \<rparr>) c s = run_nougat E c s"
proof (cases "subprocess_run E [''which'', ''nougat''] (fs s)")
  case (Raises e)
  with probe show ?thesis
    unfolding run_nougat_def Let_def by simp
next
  case (Completed rc err root1)
  with tool have same: "t (nougat_cmd c) root1 = subprocess_run E (nougat_cmd c) root1"
    by simp
  show ?thesis
  proof (cases "subprocess_run E (nougat_cmd c) root1")
    case (Raises e)
    with probe Completed same show ?thesis
      unfolding run_nougat_def Let_def by simp
  next
    case ran: (Completed rc2 err2 root2)
    show ?thesis
    proof (cases "glob root2 (location E (nougat_out c)) [] ''.mmd''")
      case Nil
      with probe Completed same ran show ?thesis
        unfolding run_nougat_def Let_def by simp
    next
      case (Cons first others)
      with probe Completed same ran show ?thesis
        unfolding run_nougat_def Let_def by simp
    qed
  qed
qed



section \<open>Stage D: the document\<close>

lemma split_on_nonempty [simp]: "split_on c s \<noteq> []"
  by (induction s) (auto split: list.splits)

lemma split_on_none: "c \<notin> set u \<Longrightarrow> split_on c u = [u]"
  by (induction u) auto

lemma split_on_append:
  "c \<notin> set u \<Longrightarrow> split_on c (t @ u) = butlast (split_on c t) @ [last (split_on c t) @ u]"
proof (induction t)
  case Nil
  then show ?case by (simp add: split_on_none)
next
  case (Cons x xs)
  then show ?case
    by (cases "split_on c xs") (auto split: list.splits)
qed

lemma parts_Path_Rmd:
  "\<exists>l. parts (Path (t @ ''.Rmd'')) \<noteq> [] \<and> last (parts (Path (t @ ''.Rmd''))) = l @ ''.Rmd''"
proof -
  let ?S = "split_on CHR ''/'' t"
  have "split_on CHR ''/'' (t @ ''.Rmd'') = butlast ?S @ [last ?S @ ''.Rmd'']"
    by (rule split_on_append) simp
  then have "parts (Path (t @ ''.Rmd'')) =
      filter (\<lambda>c. c \<noteq> [] \<and> c \<noteq> ''.'') (butlast ?S) @ [last ?S @ ''.Rmd'']"
    by (simp add: Path_def)
  then show ?thesis
    by simp
qed

lemma rmd_output_name:
  "\<exists>l. location E (rmd_output (attributes p)) \<noteq> []
       \<and> last (location E (rmd_output (attributes p))) = l @ ''.Rmd''"
proof -
  obtain l where l: "parts (Path (stem p @ ''.Rmd'')) \<noteq> []"
      "last (parts (Path (stem p @ ''.Rmd''))) = l @ ''.Rmd''"
    using parts_Path_Rmd by blast
  then show ?thesis
    by (auto simp: attributes_def slash_def joinpath_def location_def)
qed

lemma Rmd_no_match:
  "\<not> fnmatch_star [] ''.mmd'' (l @ ''.Rmd'')" "\<not> fnmatch_star [] ''.png'' (l @ ''.Rmd'')"
  by (simp_all add: fnmatch_star_def endswith_def)

lemma rstrip_end: "rstrip t = [] \<or> \<not> isspace (last (rstrip t))"
proof (cases "dropWhile isspace (rev t)")
  case Nil
  then show ?thesis by (simp add: rstrip_def)
next
  case (Cons x xs)
  then have "\<not> isspace x"
    using hd_dropWhile [of isspace "rev t"] by simp
  with Cons show ?thesis
    by (simp add: rstrip_def)
qed

text \<open>The two successful branches, for a converter the program builds.\<close>

lemma emit_placeholder:
  assumes "can_open E (fs s) (rmd_output (attributes p))"
    and "glob (fs s) (location E (nougat_out (attributes p))) [] ''.mmd'' = []"
  shows "fst (generate_base_rmd E (attributes p) s)
       \<and> lookup (fs (snd (generate_base_rmd E (attributes p) s))) (location E (rmd_output (attributes p)))
          = Some (File (rmd_header (pdf_name (attributes p))
                        @ placeholder (length (glob (fs s) (location E (png_dir (attributes p))) [] ''.png'')))
                       (new_stat E))"
proof -
  let ?c = "attributes p"
  let ?out = "location E (rmd_output ?c)"
  from assms(1) obtain root0 where
    w: "write_file ?out (str_path (rmd_output ?c)) (File [] (new_stat E)) (fs s) = Inr root0"
    by (auto simp: can_open_def split: sum.splits)
  obtain l where l: "last ?out = l @ ''.Rmd''"
    using rmd_output_name by blast
  have mmd: "glob root0 (location E (nougat_out ?c)) [] ''.mmd'' = []"
    unfolding glob_def using write_file_frame(1) [OF w] assms(2) by (simp add: l Rmd_no_match glob_def)
  have png: "glob root0 (location E (png_dir ?c)) [] ''.png'' = glob (fs s) (location E (png_dir ?c)) [] ''.png''"
    unfolding glob_def using write_file_frame(1) [OF w] by (simp add: l Rmd_no_match)
  show ?thesis
    unfolding generate_placeholder [OF w mmd] png
    using write_file_frame(4) [OF w] by simp
qed

lemma emit_transcript:
  assumes "can_open E (fs s) (rmd_output (attributes p))"
    and "glob (fs s) (location E (nougat_out (attributes p))) [] ''.mmd'' = first # others"
    and "lookup (fs s) (location E (nougat_out (attributes p)) @ [first]) = Some (File transcript m)"
  shows "fst (generate_base_rmd E (attributes p) s)
       \<and> lookup (fs (snd (generate_base_rmd E (attributes p) s))) (location E (rmd_output (attributes p)))
          = Some (File (rmd_header (pdf_name (attributes p)) @ transcript_marker @ rstrip transcript @ [NL])
                       (new_stat E))"
proof -
  let ?c = "attributes p"
  let ?out = "location E (rmd_output ?c)"
  from assms(1) obtain root0 where
    w: "write_file ?out (str_path (rmd_output ?c)) (File [] (new_stat E)) (fs s) = Inr root0"
    by (auto simp: can_open_def split: sum.splits)
  obtain l where l: "last ?out = l @ ''.Rmd''" and ne: "?out \<noteq> []"
    using rmd_output_name by blast
  have mmd: "glob root0 (location E (nougat_out ?c)) [] ''.mmd'' = first # others"
    unfolding glob_def using write_file_frame(1) [OF w] assms(2) by (simp add: l Rmd_no_match glob_def)
  have "first \<in> set (glob (fs s) (location E (nougat_out ?c)) [] ''.mmd'')"
    by (simp add: assms(2))
  then have "fnmatch_star [] ''.mmd'' first"
    by (simp add: glob_def)
  with l have "first \<noteq> last ?out"
    using Rmd_no_match(1) by auto
  then have "location E (nougat_out ?c) @ [first] \<noteq> ?out"
    by (metis last_snoc)
  with assms(3) have "lookup root0 (location E (nougat_out ?c) @ [first]) = Some (File transcript m)"
    by (rule write_file_frame(2) [OF w])
  then have r: "read_file (location E (nougat_out ?c) @ [first])
      (str_path (slash (nougat_out ?c) first)) root0 = Inr (transcript, m)"
    by (simp add: read_file_Inr)
  show ?thesis
    unfolding generate_transcript [OF w mmd r]
    using write_file_frame(4) [OF w] by simp
qed

text \<open>The sample run at the last stage.\<close>

lemma at_emit_locations:
  "location (env_doc t) (rmd_output (attributes doc_path)) = [''w'', ''assets'', ''out'', ''doc.Rmd'']"
  "location (env_doc t) (nougat_out (attributes doc_path)) = [''w'', ''assets'', ''out'', ''nougat'']"
  "location (env_doc t) (png_dir (attributes doc_path)) = [''w'', ''assets'', ''out'', ''png'']"
  "new_stat (env_doc t) = 420"
  "pdf_name (attributes doc_path) = ''doc''"
  by (simp_all add: doc_conv_attributes location_def env_doc_def doc_conv_def)

lemma at_emit_can_open:
  "can_open (env_doc t) (fs (at_emit ts)) (rmd_output (attributes doc_path))"
  unfolding can_open_def at_emit_locations
  by (simp add: write_file_def at_emit_def work_tree_def)

lemma at_emit_transcripts:
  "glob (fs (at_emit ts)) [''w'', ''assets'', ''out'', ''nougat''] [] ''.mmd''
     = filter (fnmatch_star [] ''.mmd'') (map fst ts)"
  "lookup (fs (at_emit ts)) ([''w'', ''assets'', ''out'', ''nougat''] @ [f]) = map_of ts f"
  by (simp_all add: glob_def scandir_def lookup_def at_emit_def work_tree_def split: option.split)

lemma at_emit_pages:
  "glob (fs (at_emit ts)) [''w'', ''assets'', ''out'', ''png''] [] ''.png'' = [''1.png'']"
  by (simp add: glob_def scandir_def lookup_def at_emit_def work_tree_def fnmatch_star_def
      startswith_def endswith_def)

text \<open>
  C3, as the program has it. When the OCR-output directory holds at least one entry
  named \<open>*.mmd\<close>, the first of them in the order the directory enumerates them is a
  regular file, and the output file can be opened, the document is the header, the
  transcript marker, the text of that file without its trailing whitespace, and one
  newline. The trimmed text is empty or ends in a character that is not whitespace. The
  file read is the lexically first transcript when the enumeration is in lexical order.
\<close>

theorem transcript_document:
  assumes "can_open E (fs s) (rmd_output (attributes p))"
    and "glob (fs s) (location E (nougat_out (attributes p))) [] ''.mmd'' = first # others"
    and "lookup (fs s) (location E (nougat_out (attributes p)) @ [first]) = Some (File transcript m)"
  shows "fst (generate_base_rmd E (attributes p) s)
       \<and> lookup (fs (snd (generate_base_rmd E (attributes p) s))) (location E (rmd_output (attributes p)))
          = Some (File (rmd_header (pdf_name (attributes p)) @ transcript_marker @ rstrip transcript @ [NL])
                       (new_stat E))
       \<and> (rstrip transcript = [] \<or> \<not> isspace (last (rstrip transcript)))
       \<and> (sorted (first # others) \<longrightarrow> (\<forall>f \<in> set (first # others). first \<le> f))"
  using emit_transcript [OF assms] rstrip_end [of transcript] by auto

theorem transcript_document_witness:
  "fst (generate_base_rmd (env_doc silent_tools) (attributes doc_path) (at_emit one_transcript))
   \<and> lookup (fs (snd (generate_base_rmd (env_doc silent_tools) (attributes doc_path) (at_emit one_transcript))))
        [''w'', ''assets'', ''out'', ''doc.Rmd'']
      = Some (File (rmd_header ''doc'' @ transcript_marker @ ''# Title'' @ [NL, NL] @ ''Body'' @ [NL]) 420)"
proof -
  have listed: "glob (fs (at_emit one_transcript))
      (location (env_doc silent_tools) (nougat_out (attributes doc_path))) [] ''.mmd'' = [''doc.mmd'']"
    unfolding at_emit_locations at_emit_transcripts
    by (simp add: one_transcript_def fnmatch_star_def startswith_def endswith_def)
  have content: "lookup (fs (at_emit one_transcript))
      (location (env_doc silent_tools) (nougat_out (attributes doc_path)) @ [''doc.mmd''])
      = Some (File (''# Title'' @ [NL, NL] @ ''Body '' @ [NL, NL]) 420)"
    unfolding at_emit_locations at_emit_transcripts by (simp add: one_transcript_def)
  have trimmed: "rstrip (''# Title'' @ [NL, NL] @ ''Body '' @ [NL, NL]) = ''# Title'' @ [NL, NL] @ ''Body''"
    by (simp add: rstrip_def isspace_def NL_def)
  show ?thesis
    using transcript_document [OF at_emit_can_open listed content]
    unfolding at_emit_locations trimmed by simp
qed

text \<open>
  C3 as stated fails: with two transcripts that the directory enumerates as \<open>b.mmd\<close>,
  \<open>a.mmd\<close>, the document carries the text of \<open>b.mmd\<close>, not that of the lexically first
  \<open>a.mmd\<close>.
\<close>

theorem transcript_order_counterexample:
  "glob (fs (at_emit two_transcripts)) [''w'', ''assets'', ''out'', ''nougat''] [] ''.mmd''
     = [''b.mmd'', ''a.mmd'']
   \<and> sort [''b.mmd'', ''a.mmd''] = [''a.mmd'', ''b.mmd'']
   \<and> lookup (fs (at_emit two_transcripts)) [''w'', ''assets'', ''out'', ''nougat'', ''a.mmd'']
      = Some (File (''A'' @ [NL]) 420)
   \<and> fst (generate_base_rmd (env_doc silent_tools) (attributes doc_path) (at_emit two_transcripts))
   \<and> lookup (fs (snd (generate_base_rmd (env_doc silent_tools) (attributes doc_path) (at_emit two_transcripts))))
        [''w'', ''assets'', ''out'', ''doc.Rmd'']
      = Some (File (rmd_header ''doc'' @ transcript_marker @ ''B'' @ [NL]) 420)
   \<and> lookup (fs (snd (generate_base_rmd (env_doc silent_tools) (attributes doc_path) (at_emit two_transcripts))))
        [''w'', ''assets'', ''out'', ''doc.Rmd'']
      \<noteq> Some (File (rmd_header ''doc'' @ transcript_marker @ rstrip (''A'' @ [NL]) @ [NL]) 420)"
proof -
  have listed: "glob (fs (at_emit two_transcripts)) [''w'', ''assets'', ''out'', ''nougat''] [] ''.mmd''
      = [''b.mmd'', ''a.mmd'']"
    unfolding at_emit_transcripts
    by (simp add: two_transcripts_def fnmatch_star_def startswith_def endswith_def)
  have first: "lookup (fs (at_emit two_transcripts)) ([''w'', ''assets'', ''out'', ''nougat''] @ [''b.mmd''])
      = Some (File (''B'' @ [NL]) 420)"
    unfolding at_emit_transcripts by (simp add: two_transcripts_def)
  have other: "lookup (fs (at_emit two_transcripts)) [''w'', ''assets'', ''out'', ''nougat'', ''a.mmd'']
      = Some (File (''A'' @ [NL]) 420)"
    using at_emit_transcripts(2) [of two_transcripts "''a.mmd''"] by (simp add: two_transcripts_def)
  have trimmed: "rstrip (''B'' @ [NL]) = ''B''" "rstrip (''A'' @ [NL]) = ''A''"
    by (simp_all add: rstrip_def isspace_def NL_def)
  have written:
    "fst (generate_base_rmd (env_doc silent_tools) (attributes doc_path) (at_emit two_transcripts))
     \<and> lookup (fs (snd (generate_base_rmd (env_doc silent_tools) (attributes doc_path) (at_emit two_transcripts))))
          [''w'', ''assets'', ''out'', ''doc.Rmd'']
        = Some (File (rmd_header ''doc'' @ transcript_marker @ ''B'' @ [NL]) 420)"
    using emit_transcript [of "env_doc silent_tools" "at_emit two_transcripts" doc_path "''b.mmd''" "[''a.mmd'']"
        "''B'' @ [NL]" 420]
    unfolding at_emit_locations trimmed
    using at_emit_can_open [of silent_tools two_transcripts, unfolded at_emit_locations] listed first
    by simp
  have order: "sort [''b.mmd'', ''a.mmd''] = [''a.mmd'', ''b.mmd'']"
    by simp
  show ?thesis
    using listed order other written unfolding trimmed by simp
qed

text \<open>
  C5, as the program has it. When the OCR-output directory holds no entry named \<open>*.mmd\<close>
  and the output file can be opened, the document is the header followed by the
  placeholder section, which carries the number of entries of the rasterized-pages
  directory whose names end in \<open>.png\<close>, page images or not. That number is the number
  of page-image files when every such entry is one.
\<close>

theorem placeholder_document:
  assumes "can_open E (fs s) (rmd_output (attributes p))"
    and "glob (fs s) (location E (nougat_out (attributes p))) [] ''.mmd'' = []"
  shows "fst (generate_base_rmd E (attributes p) s)
       \<and> lookup (fs (snd (generate_base_rmd E (attributes p) s))) (location E (rmd_output (attributes p)))
          = Some (File (rmd_header (pdf_name (attributes p))
                        @ [NL] @ ''<!-- Content Placeholder -->'' @ [NL, NL]
                        @ ''## Document Pages'' @ [NL, NL]
                        @ ''_OCR transcript not available. Document has ''
                        @ str_nat (length (filter (fnmatch_star [] ''.png'')
                                     (scandir (fs s) (location E (png_dir (attributes p))))))
                        @ '' pages._'' @ [NL, NL])
                       (new_stat E))
       \<and> ((\<forall>n \<in> set (scandir (fs s) (location E (png_dir (attributes p)))).
               fnmatch_star [] ''.png'' n \<longrightarrow> page_image (fs s) (location E (png_dir (attributes p))) n) \<longrightarrow>
            length (filter (fnmatch_star [] ''.png'')
                      (scandir (fs s) (location E (png_dir (attributes p)))))
            = length (filter (page_image (fs s) (location E (png_dir (attributes p))))
                      (scandir (fs s) (location E (png_dir (attributes p))))))"
proof -
  have png: "\<And>n d. page_image (fs s) d n \<Longrightarrow> fnmatch_star [] ''.png'' n"
    by (simp add: page_image_def canonical_def fnmatch_star_def startswith_def endswith_def)
  have same: "(\<forall>n \<in> set xs. fnmatch_star [] ''.png'' n \<longrightarrow> page_image (fs s) d n) \<longrightarrow>
      filter (fnmatch_star [] ''.png'') xs = filter (page_image (fs s) d) xs" for xs d
    using png by (auto intro: filter_cong)
  show ?thesis
    using emit_placeholder [OF assms] same by (auto simp: placeholder_def glob_def)
qed

theorem placeholder_document_witness:
  "fst (generate_base_rmd (env_doc silent_tools) (attributes doc_path) (at_emit []))
   \<and> lookup (fs (snd (generate_base_rmd (env_doc silent_tools) (attributes doc_path) (at_emit []))))
        [''w'', ''assets'', ''out'', ''doc.Rmd'']
      = Some (File (rmd_header ''doc'' @ [NL] @ ''<!-- Content Placeholder -->'' @ [NL, NL]
            @ ''## Document Pages'' @ [NL, NL]
            @ ''_OCR transcript not available. Document has 1 pages._'' @ [NL, NL]) 420)"
proof -
  have none: "glob (fs (at_emit [])) (location (env_doc silent_tools) (nougat_out (attributes doc_path)))
      [] ''.mmd'' = []"
    unfolding at_emit_locations at_emit_transcripts by simp
  have pages: "filter (fnmatch_star [] ''.png'') (scandir (fs (at_emit [])) [''w'', ''assets'', ''out'', ''png''])
      = [''1.png'']"
    using at_emit_pages [of "[]"] by (simp add: glob_def)
  have one: "str_nat (length [''1.png'']) = ''1''"
    by (simp add: str_nat.simps digit_char_def)
  note written = placeholder_document [OF at_emit_can_open none, unfolded at_emit_locations pages one]
  from written have
    "fst (generate_base_rmd (env_doc silent_tools) (attributes doc_path) (at_emit []))"
    "lookup (fs (snd (generate_base_rmd (env_doc silent_tools) (attributes doc_path) (at_emit []))))
        [''w'', ''assets'', ''out'', ''doc.Rmd'']
      = Some (File (rmd_header ''doc'' @ [NL] @ ''<!-- Content Placeholder -->'' @ [NL, NL]
            @ ''## Document Pages'' @ [NL, NL]
            @ ''_OCR transcript not available. Document has '' @ ''1'' @ '' pages._'' @ [NL, NL]) 420)"
    by blast+
  then show ?thesis
    by simp
qed

text \<open>
  C5 as stated fails: with one page image \<open>1.png\<close>, a picture \<open>cover.png\<close> and a
  directory \<open>dir.png\<close> in the pages directory, the placeholder says the document has 3
  pages, while the directory holds one page-image file.
\<close>

theorem placeholder_counts_every_png_counterexample:
  "glob (fs at_emit_cluttered) [''w'', ''assets'', ''out'', ''nougat''] [] ''.mmd'' = []
   \<and> scandir (fs at_emit_cluttered) [''w'', ''assets'', ''out'', ''png'']
      = [''1.png'', ''cover.png'', ''dir.png'']
   \<and> filter (page_image (fs at_emit_cluttered) [''w'', ''assets'', ''out'', ''png''])
        [''1.png'', ''cover.png'', ''dir.png'']
      = [''1.png'']
   \<and> fst (generate_base_rmd (env_doc silent_tools) (attributes doc_path) at_emit_cluttered)
   \<and> lookup (fs (snd (generate_base_rmd (env_doc silent_tools) (attributes doc_path) at_emit_cluttered)))
        [''w'', ''assets'', ''out'', ''doc.Rmd'']
      = Some (File (rmd_header ''doc'' @ [NL] @ ''<!-- Content Placeholder -->'' @ [NL, NL]
            @ ''## Document Pages'' @ [NL, NL]
            @ ''_OCR transcript not available. Document has 3 pages._'' @ [NL, NL]) 420)"
proof -
  have opens: "can_open (env_doc silent_tools) (fs at_emit_cluttered) (rmd_output (attributes doc_path))"
    unfolding can_open_def at_emit_locations
    by (simp add: write_file_def at_emit_cluttered_def work_tree_def)
  have none: "glob (fs at_emit_cluttered) [''w'', ''assets'', ''out'', ''nougat''] [] ''.mmd'' = []"
    by (simp add: glob_def scandir_def lookup_def at_emit_cluttered_def work_tree_def)
  have listed: "scandir (fs at_emit_cluttered) [''w'', ''assets'', ''out'', ''png'']
      = [''1.png'', ''cover.png'', ''dir.png'']"
    by (simp add: scandir_def lookup_def at_emit_cluttered_def work_tree_def)
  have pngs: "glob (fs at_emit_cluttered) [''w'', ''assets'', ''out'', ''png''] [] ''.png''
      = [''1.png'', ''cover.png'', ''dir.png'']"
    unfolding glob_def listed by (simp add: fnmatch_star_def startswith_def endswith_def)
  have images: "filter (page_image (fs at_emit_cluttered) [''w'', ''assets'', ''out'', ''png''])
        [''1.png'', ''cover.png'', ''dir.png''] = [''1.png'']"
    by (simp add: page_image_def canonical_def endswith_def isdigit_def int_of_digits_def
        digit_val_def str_nat.simps digit_char_def lookup_def at_emit_cluttered_def work_tree_def)
  have three: "placeholder (length [''1.png'', ''cover.png'', ''dir.png''])
      = [NL] @ ''<!-- Content Placeholder -->'' @ [NL, NL]
            @ ''## Document Pages'' @ [NL, NL]
            @ ''_OCR transcript not available. Document has 3 pages._'' @ [NL, NL]"
    by (simp add: placeholder_def str_nat.simps digit_char_def)
  note written = emit_placeholder [of "env_doc silent_tools" at_emit_cluttered doc_path,
      unfolded at_emit_locations pngs three, OF opens none]
  show ?thesis
    using none listed images written by simp
qed

section \<open>Stage B: the page images\<close>

lemma scandir_set: "set (scandir root d) = {x. lookup root (d @ [x]) \<noteq> None}"
proof (cases "stat root d")
  case (Inl e)
  then show ?thesis
    by (simp add: scandir_stat lookup_def stat_append)
next
  case (Inr n)
  show ?thesis
  proof (cases n)
    case (File t m)
    with Inr show ?thesis
      by (simp add: scandir_stat lookup_def stat_append)
  next
    case (Dir es)
    with Inr have "\<And>x. lookup root (d @ [x]) = map_of es x"
      by (simp add: lookup_child)
    with Inr Dir show ?thesis
      by (auto simp: scandir_stat dom_map_of_conv_image_fst [symmetric])
  qed
qed

lemma str_nat_starts_with_digit: "\<exists>c t. str_nat n = c # t \<and> c \<in> set ''0123456789''"
proof (induction n rule: str_nat.induct)
  case (1 n)
  show ?case
  proof (cases "n < 10")
    case True
    then have "digit_char n \<in> set ''0123456789''"
      unfolding digit_char_def by (intro nth_mem) simp
    with True show ?thesis
      by (subst str_nat.simps) simp
  next
    case False
    with 1 obtain c t where "str_nat (n div 10) = c # t" "c \<in> set ''0123456789''"
      by blast
    with False show ?thesis
      by (subst str_nat.simps) simp
  qed
qed

lemma canonical_name_not_page: "\<not> startswith (canonical_name n) ''page-''"
proof -
  obtain c t where "str_nat (page_number n) = c # t" "c \<in> set ''0123456789''"
    using str_nat_starts_with_digit by blast
  then show ?thesis
    by (auto simp: canonical_name_def startswith_def)
qed

text \<open>One rename in the pages directory, seen through the entries of that directory.\<close>

lemma rename_entries:
  assumes "rename E dp a b root = Inr root'" and "a \<noteq> b"
  shows "lookup root (location E dp @ [a]) \<noteq> None
       \<and> (\<forall>x. lookup root' (location E dp @ [x]) =
               (if x = b then lookup root (location E dp @ [a])
                else if x = a then None
                else lookup root (location E dp @ [x])))"
proof -
  let ?d = "location E dp"
  from assms obtain n where n: "stat root (?d @ [a]) = Inr n"
    by (auto simp: rename_def rename_in_def split: sum.splits)
  then obtain k where k: "stat root ?d = Inr k" "stat k [a] = Inr n"
    by (cases "stat root ?d") (simp_all add: stat_append)
  then obtain es where es: "stat root ?d = Inr (Dir es)" and a: "map_of es a = Some n"
    by (cases k) (auto split: option.splits)
  from assms n have root': "root' = upd_dir ?d (\<lambda>es. AList.update b n (AList.delete a es)) root"
    by (auto simp: rename_def rename_in_def split: prod.splits node.splits option.splits list.splits)
  have "stat root' ?d = Inr (Dir (AList.update b n (AList.delete a es)))"
    unfolding root' using es by (rule stat_upd_dir_same)
  then have new: "\<And>x. lookup root' (?d @ [x]) = map_of (AList.update b n (AList.delete a es)) x"
    by (rule lookup_child)
  have old: "\<And>x. lookup root (?d @ [x]) = map_of es x"
    using es by (rule lookup_child)
  show ?thesis
    using a by (simp add: new old update_conv' delete_conv')
qed

text \<open>
  The loop, when no rename raises: the names it matched are gone, their canonical names
  are there, and every other entry of the directory is the node it was.
\<close>

lemma rename_pages_entries:
  assumes "rename_pages E dp ps root = (None, root')"
    and "\<forall>q \<in> set ps. startswith q ''page-''"
  shows "(\<forall>x \<in> {q \<in> set ps. re_search_page q \<noteq> None}. lookup root' (location E dp @ [x]) = None)
       \<and> (\<forall>x \<in> canonical_name ` {q \<in> set ps. re_search_page q \<noteq> None}.
             lookup root' (location E dp @ [x]) \<noteq> None)
       \<and> (\<forall>x. x \<notin> {q \<in> set ps. re_search_page q \<noteq> None}
               \<and> x \<notin> canonical_name ` {q \<in> set ps. re_search_page q \<noteq> None} \<longrightarrow>
               lookup root' (location E dp @ [x]) = lookup root (location E dp @ [x]))"
  using assms
proof (induction ps arbitrary: root)
  case Nil
  then show ?case by simp
next
  case (Cons p rest)
  let ?d = "location E dp"
  let ?N' = "{q \<in> set rest. re_search_page q \<noteq> None}"
  have pages: "\<forall>q \<in> set rest. startswith q ''page-''" and p: "startswith p ''page-''"
    using Cons.prems(2) by simp_all
  have digit: "\<And>q. canonical_name q \<notin> set (p # rest)"
    using Cons.prems(2) canonical_name_not_page by blast
  show ?case
  proof (cases "re_search_page p")
    case None
    with Cons.prems(1) have "rename_pages E dp rest root = (None, root')"
      by simp
    from Cons.IH [OF this pages] None show ?thesis
      by auto
  next
    case (Some digits)
    let ?b = "canonical_name p"
    have b: "str_nat (int_of_digits digits) @ ''.png'' = ?b"
      by (simp add: canonical_name_def page_number_def Some)
    from Cons.prems(1) Some obtain r1 where
      r1: "rename E dp p ?b root = Inr r1" and rest: "rename_pages E dp rest r1 = (None, root')"
      by (auto simp: b Let_def split: sum.splits)
    have "p \<noteq> ?b"
      using p canonical_name_not_page by metis
    with r1 have step: "\<And>x. lookup r1 (?d @ [x]) =
        (if x = ?b then lookup root (?d @ [p]) else if x = p then None else lookup root (?d @ [x]))"
      and src: "lookup root (?d @ [p]) \<noteq> None"
      using rename_entries by blast+
    note IH = Cons.IH [OF rest pages]
    have N: "{q \<in> set (p # rest). re_search_page q \<noteq> None} = insert p ?N'"
      using Some by auto
    have gone: "\<forall>x \<in> insert p ?N'. lookup root' (?d @ [x]) = None"
    proof
      fix x assume x: "x \<in> insert p ?N'"
      show "lookup root' (?d @ [x]) = None"
      proof (cases "x \<in> ?N'")
        case True
        with IH show ?thesis by blast
      next
        case False
        with x have xp: "x = p" by blast
        have "p \<notin> canonical_name ` ?N'"
          using digit by auto
        with False xp IH have "lookup root' (?d @ [p]) = lookup r1 (?d @ [p])"
          by blast
        with xp \<open>p \<noteq> ?b\<close> show ?thesis
          by (simp add: step)
      qed
    qed
    have there: "\<forall>x \<in> canonical_name ` insert p ?N'. lookup root' (?d @ [x]) \<noteq> None"
    proof
      fix x assume x: "x \<in> canonical_name ` insert p ?N'"
      show "lookup root' (?d @ [x]) \<noteq> None"
      proof (cases "x \<in> canonical_name ` ?N'")
        case True
        with IH show ?thesis by blast
      next
        case False
        with x have xb: "x = ?b" by auto
        have "?b \<notin> ?N'"
          using digit by auto
        with False xb IH have "lookup root' (?d @ [?b]) = lookup r1 (?d @ [?b])"
          by blast
        with xb src show ?thesis
          by (simp add: step)
      qed
    qed
    have kept: "\<forall>x. x \<notin> insert p ?N' \<and> x \<notin> canonical_name ` insert p ?N' \<longrightarrow>
        lookup root' (?d @ [x]) = lookup root (?d @ [x])"
    proof (intro allI impI)
      fix x assume x: "x \<notin> insert p ?N' \<and> x \<notin> canonical_name ` insert p ?N'"
      then have "lookup root' (?d @ [x]) = lookup r1 (?d @ [x])"
        using IH by auto
      with x show "lookup root' (?d @ [x]) = lookup root (?d @ [x])"
        by (simp add: step)
    qed
    show ?thesis
      unfolding N using gone there kept by blast
  qed
qed

text \<open>What a successful run of the stage went through.\<close>

lemma pdf_to_png_ok:
  assumes "fst (pdf_to_png E c s)"
  obtains err root root' where
    "subprocess_run E (pdftoppm_cmd c) (fs s) = Completed 0 err root"
    "rename_pages E (png_dir c) (sort (glob root (location E (png_dir c)) ''page-'' ''.png'')) root
       = (None, root')"
    "fs (snd (pdf_to_png E c s)) = root'"
    "last (stdout (snd (pdf_to_png E c s))) =
       ''  '' @ check_mark @ '' Created ''
       @ str_nat (length (glob root' (location E (png_dir c)) [] ''.png'')) @ '' PNG images''"
proof (cases "subprocess_run E (pdftoppm_cmd c) (fs s)")
  case (Raises e)
  with assms show ?thesis
    by (simp add: pdf_to_png_raises)
next
  case (Completed rc err root)
  show ?thesis
  proof (cases "rc = 0")
    case False
    with Completed assms show ?thesis
      by (simp add: pdf_to_png_nonzero)
  next
    case True
    with Completed have run: "subprocess_run E (pdftoppm_cmd c) (fs s) = Completed 0 err root"
      by simp
    obtain r root' where loop:
      "rename_pages E (png_dir c) (sort (glob root (location E (png_dir c)) ''page-'' ''.png'')) root = (r, root')"
      by (cases "rename_pages E (png_dir c) (sort (glob root (location E (png_dir c)) ''page-'' ''.png'')) root")
    show ?thesis
    proof (cases r)
      case (Some e)
      with assms loop show ?thesis
        by (simp add: pdf_to_png_zero [OF run] Let_def)
    next
      case None
      with loop have "fs (snd (pdf_to_png E c s)) = root'"
        and "last (stdout (snd (pdf_to_png E c s))) =
           ''  '' @ check_mark @ '' Created ''
           @ str_nat (length (glob root' (location E (png_dir c)) [] ''.png'')) @ '' PNG images''"
        by (simp_all add: pdf_to_png_zero [OF run] Let_def)
      with run loop None show ?thesis
        using that by blast
    qed
  qed
qed

lemma native_glob:
  "{q \<in> set (sort (glob root d ''page-'' ''.png'')). re_search_page q \<noteq> None}
     = {n \<in> set (scandir root d). native n}"
  by (auto simp: glob_def native_def)

lemma glob_page_prefix: "\<forall>q \<in> set (sort (glob root d ''page-'' ''.png'')). startswith q ''page-''"
  by (simp add: glob_def fnmatch_star_def)

text \<open>
  C2, as the program has it. After a successful Stage B the pages directory holds the
  names it held when the rasterizer returned that the native pattern does not match,
  and the canonical name \<open><number>.png\<close> of every name the pattern matches, the number
  being the value of the digits matched. An entry whose name is neither matched nor the
  canonical name of a matched one is the node it was. So when the page numbers of the
  matched names are exactly 1 to N, the directory holds \<open>1.png\<close> to \<open>N.png\<close> and the
  names that were not matched.
\<close>

theorem renamed_pages:
  assumes ran: "subprocess_run E (pdftoppm_cmd c) (fs s) = Completed rc err root"
    and ok: "fst (pdf_to_png E c s)"
  shows "set (scandir (fs (snd (pdf_to_png E c s))) (location E (png_dir c))) =
           {n \<in> set (scandir root (location E (png_dir c))). \<not> native n}
           \<union> canonical_name ` {n \<in> set (scandir root (location E (png_dir c))). native n}
       \<and> (\<forall>n. \<not> native n
               \<and> n \<notin> canonical_name ` {n \<in> set (scandir root (location E (png_dir c))). native n} \<longrightarrow>
             lookup (fs (snd (pdf_to_png E c s))) (location E (png_dir c) @ [n])
               = lookup root (location E (png_dir c) @ [n]))
       \<and> (page_number ` {n \<in> set (scandir root (location E (png_dir c))). native n} = {1..N} \<longrightarrow>
             set (scandir (fs (snd (pdf_to_png E c s))) (location E (png_dir c))) =
               {n \<in> set (scandir root (location E (png_dir c))). \<not> native n}
               \<union> (\<lambda>k. str_nat k @ ''.png'') ` {1..N})"
proof -
  let ?d = "location E (png_dir c)"
  let ?Nat = "{n \<in> set (scandir root ?d). native n}"
  from ok obtain err' root0 root' where
    run: "subprocess_run E (pdftoppm_cmd c) (fs s) = Completed 0 err' root0"
    and loop: "rename_pages E (png_dir c) (sort (glob root0 ?d ''page-'' ''.png'')) root0 = (None, root')"
    and final: "fs (snd (pdf_to_png E c s)) = root'"
    by (rule pdf_to_png_ok)
  from ran run have root0: "root0 = root"
    by simp
  note entries = rename_pages_entries [OF loop glob_page_prefix, unfolded native_glob root0]
  from entries have gone: "\<And>x. x \<in> ?Nat \<Longrightarrow> lookup root' (?d @ [x]) = None"
    by blast
  from entries have there: "\<And>x. x \<in> canonical_name ` ?Nat \<Longrightarrow> lookup root' (?d @ [x]) \<noteq> None"
    by blast
  from entries have kept: "\<And>x. x \<notin> ?Nat \<Longrightarrow> x \<notin> canonical_name ` ?Nat \<Longrightarrow>
      lookup root' (?d @ [x]) = lookup root (?d @ [x])"
    by blast
  have names: "set (scandir root' ?d) = {n \<in> set (scandir root ?d). \<not> native n} \<union> canonical_name ` ?Nat"
  proof (intro set_eqI iffI)
    fix x assume "x \<in> set (scandir root' ?d)"
    then have x: "lookup root' (?d @ [x]) \<noteq> None"
      by (simp add: scandir_set)
    show "x \<in> {n \<in> set (scandir root ?d). \<not> native n} \<union> canonical_name ` ?Nat"
    proof (cases "x \<in> canonical_name ` ?Nat")
      case True
      then show ?thesis by simp
    next
      case False
      have "x \<notin> ?Nat"
      proof
        assume "x \<in> ?Nat"
        then have "lookup root' (?d @ [x]) = None"
          by (rule gone)
        with x show False
          by simp
      qed
      with False x kept have "lookup root (?d @ [x]) \<noteq> None"
        by simp
      then have "x \<in> set (scandir root ?d)"
        by (simp add: scandir_set)
      with \<open>x \<notin> ?Nat\<close> show ?thesis
        by simp
    qed
  next
    fix x assume x: "x \<in> {n \<in> set (scandir root ?d). \<not> native n} \<union> canonical_name ` ?Nat"
    show "x \<in> set (scandir root' ?d)"
    proof (cases "x \<in> canonical_name ` ?Nat")
      case True
      with there show ?thesis
        by (simp add: scandir_set)
    next
      case False
      with x have "x \<in> set (scandir root ?d)" "x \<notin> ?Nat"
        by auto
      with False kept show ?thesis
        by (simp add: scandir_set)
    qed
  qed
  have untouched: "\<forall>n. \<not> native n \<and> n \<notin> canonical_name ` ?Nat \<longrightarrow>
      lookup root' (?d @ [n]) = lookup root (?d @ [n])"
    using kept by simp
  have numbered: "canonical_name ` ?Nat = (\<lambda>k. str_nat k @ ''.png'') ` page_number ` ?Nat"
    by (simp add: image_image canonical_name_def)
  show ?thesis
    unfolding final using names untouched numbered by simp
qed

text \<open>
  C4, as the program has it. On success the count Stage B prints is the number of
  entries of the pages directory whose names end in \<open>.png\<close>, canonical or not. It is the
  number of canonical images when every such entry has a canonical name.
\<close>

theorem reported_count:
  assumes ok: "fst (pdf_to_png E c s)"
  shows "last (stdout (snd (pdf_to_png E c s))) =
           ''  '' @ check_mark @ '' Created ''
           @ str_nat (length (filter (fnmatch_star [] ''.png'')
                        (scandir (fs (snd (pdf_to_png E c s))) (location E (png_dir c)))))
           @ '' PNG images''
       \<and> ((\<forall>n \<in> set (scandir (fs (snd (pdf_to_png E c s))) (location E (png_dir c))).
               fnmatch_star [] ''.png'' n \<longrightarrow> canonical n) \<longrightarrow>
            length (filter (fnmatch_star [] ''.png'')
                      (scandir (fs (snd (pdf_to_png E c s))) (location E (png_dir c))))
            = length (filter canonical
                      (scandir (fs (snd (pdf_to_png E c s))) (location E (png_dir c)))))"
proof -
  from ok obtain root' where "fs (snd (pdf_to_png E c s)) = root'"
    and "last (stdout (snd (pdf_to_png E c s))) =
       ''  '' @ check_mark @ '' Created ''
       @ str_nat (length (glob root' (location E (png_dir c)) [] ''.png'')) @ '' PNG images''"
    by (rule pdf_to_png_ok)
  then have printed: "last (stdout (snd (pdf_to_png E c s))) =
           ''  '' @ check_mark @ '' Created ''
           @ str_nat (length (filter (fnmatch_star [] ''.png'')
                        (scandir (fs (snd (pdf_to_png E c s))) (location E (png_dir c)))))
           @ '' PNG images''"
    by (simp add: glob_def)
  have png: "\<And>n. canonical n \<Longrightarrow> fnmatch_star [] ''.png'' n"
    by (simp add: canonical_def fnmatch_star_def startswith_def endswith_def)
  have same: "(\<forall>n \<in> set xs. fnmatch_star [] ''.png'' n \<longrightarrow> canonical n) \<longrightarrow>
      filter (fnmatch_star [] ''.png'') xs = filter canonical xs" for xs
    using png by (auto intro: filter_cong)
  show ?thesis
    using printed same by auto
qed

section \<open>Sample runs of Stage B\<close>

lemma at_pages_location:
  "location (env_doc t) (png_dir doc_conv) = [''w'', ''assets'', ''out'', ''png'']"
  by (simp add: location_def env_doc_def doc_conv_def)

lemma pages_of_work_tree:
  "scandir (work_tree st pages ts) [''w'', ''assets'', ''out'', ''png''] = map fst pages"
  "lookup (work_tree st pages ts) ([''w'', ''assets'', ''out'', ''png''] @ [n]) = map_of pages n"
  by (simp_all add: scandir_def lookup_def work_tree_def split: option.split)

lemma sample_pages:
  assumes run: "t (pdftoppm_cmd doc_conv) (work_tree st before []) = Completed 0 [] (work_tree st after [])"
    and listed: "sort (filter (fnmatch_star ''page-'' ''.png'') (map fst after)) = ps"
    and loop: "rename_pages (env_doc t) (png_dir doc_conv) ps (work_tree st after [])
                 = (None, work_tree st final [])"
  shows "pdf_to_png (env_doc t) doc_conv \<lparr> fs = work_tree st before [], stdout = [] \<rparr> =
           (True,
            \<lparr> fs = work_tree st final [],
              stdout =
                [[NL] @ ''[2/4] Converting PDF to PNG sequence in assets/out/png/...'',
                 ''  Running: pdftoppm -png -r 150 assets/in/doc.pdf assets/out/png/page'',
                 ''  '' @ check_mark @ '' Created ''
                 @ str_nat (length (filter (fnmatch_star [] ''.png'') (map fst final)))
                 @ '' PNG images''] \<rparr>)"
proof -
  have run': "subprocess_run (env_doc t) (pdftoppm_cmd doc_conv)
      (fs \<lparr> fs = work_tree st before [], stdout = [] \<rparr>) = Completed 0 [] (work_tree st after [])"
    using run by (simp add: env_doc_def)
  have names: "str_path (png_dir doc_conv) = ''assets/out/png''"
    "join '' '' (pdftoppm_cmd doc_conv) = ''pdftoppm -png -r 150 assets/in/doc.pdf assets/out/png/page''"
    by (simp_all add: doc_conv_def str_path_def pdftoppm_cmd_def slash_def joinpath_def Path_def
        startswith_def)
  show ?thesis
    unfolding pdf_to_png_zero [OF run'] at_pages_location glob_def pages_of_work_tree listed loop names
    by (simp add: print_def pages_of_work_tree)
qed

lemma two_pages_run:
  "pdf_to_png (env_doc (rasterizer_writes [(''page-1.png'', File ''P1'' 420), (''page-2.png'', File ''P2'' 420)])) doc_conv
     (at_pages [(''notes.txt'', File ''n'' 420)]) =
   (True,
    \<lparr> fs = work_tree [(''doc.pdf'', File ''%PDF-1.4'' 420)] [(''notes.txt'', File ''n'' 420), (''1.png'', File ''P1'' 420), (''2.png'', File ''P2'' 420)] [],
      stdout =
        [[NL] @ ''[2/4] Converting PDF to PNG sequence in assets/out/png/...'',
         ''  Running: pdftoppm -png -r 150 assets/in/doc.pdf assets/out/png/page'',
         ''  '' @ check_mark @ '' Created 2 PNG images''] \<rparr>)"
proof -
  let ?t = "rasterizer_writes [(''page-1.png'', File ''P1'' 420), (''page-2.png'', File ''P2'' 420)]"
  let ?st = "[(''doc.pdf'', File ''%PDF-1.4'' 420)]"
  have run: "?t (pdftoppm_cmd doc_conv) (work_tree ?st [(''notes.txt'', File ''n'' 420)] [])
      = Completed 0 [] (work_tree ?st [(''notes.txt'', File ''n'' 420), (''page-1.png'', File ''P1'' 420), (''page-2.png'', File ''P2'' 420)] [])"
    by (simp add: rasterizer_writes_def pdftoppm_cmd_def overwrite_def work_tree_def)
  have listed: "sort (filter (fnmatch_star ''page-'' ''.png'') (map fst [(''notes.txt'', File ''n'' 420), (''page-1.png'', File ''P1'' 420), (''page-2.png'', File ''P2'' 420)]))
      = [''page-1.png'', ''page-2.png'']"
    by (simp add: fnmatch_star_def startswith_def endswith_def)
  have loop: "rename_pages (env_doc ?t) (png_dir doc_conv) [''page-1.png'', ''page-2.png'']
      (work_tree ?st [(''notes.txt'', File ''n'' 420), (''page-1.png'', File ''P1'' 420), (''page-2.png'', File ''P2'' 420)] [])
      = (None, work_tree ?st [(''notes.txt'', File ''n'' 420), (''1.png'', File ''P1'' 420), (''2.png'', File ''P2'' 420)] [])"
    by (simp add: match_page_at_def startswith_def isdigit_def int_of_digits_def digit_val_def
        str_nat.simps digit_char_def rename_def rename_in_def at_pages_location lookup_def
        work_tree_def)
  have count: "str_nat (length (filter (fnmatch_star [] ''.png'') (map fst [(''notes.txt'', File ''n'' 420), (''1.png'', File ''P1'' 420), (''2.png'', File ''P2'' 420)]))) = ''2''"
    by (simp add: fnmatch_star_def startswith_def endswith_def str_nat.simps digit_char_def)
  show ?thesis
    using sample_pages [OF run listed loop] unfolding count by (simp add: at_pages_def)
qed

lemma page_two_only_run:
  "pdf_to_png (env_doc (rasterizer_writes [(''page-2.png'', File ''P2'' 420)])) doc_conv
     (at_pages [(''2.png'', File ''old'' 420)]) =
   (True,
    \<lparr> fs = work_tree [(''doc.pdf'', File ''%PDF-1.4'' 420)] [(''2.png'', File ''P2'' 420)] [],
      stdout =
        [[NL] @ ''[2/4] Converting PDF to PNG sequence in assets/out/png/...'',
         ''  Running: pdftoppm -png -r 150 assets/in/doc.pdf assets/out/png/page'',
         ''  '' @ check_mark @ '' Created 1 PNG images''] \<rparr>)"
proof -
  let ?t = "rasterizer_writes [(''page-2.png'', File ''P2'' 420)]"
  let ?st = "[(''doc.pdf'', File ''%PDF-1.4'' 420)]"
  have run: "?t (pdftoppm_cmd doc_conv) (work_tree ?st [(''2.png'', File ''old'' 420)] [])
      = Completed 0 [] (work_tree ?st [(''2.png'', File ''old'' 420), (''page-2.png'', File ''P2'' 420)] [])"
    by (simp add: rasterizer_writes_def pdftoppm_cmd_def overwrite_def work_tree_def)
  have listed: "sort (filter (fnmatch_star ''page-'' ''.png'') (map fst [(''2.png'', File ''old'' 420), (''page-2.png'', File ''P2'' 420)]))
      = [''page-2.png'']"
    by (simp add: fnmatch_star_def startswith_def endswith_def)
  have loop: "rename_pages (env_doc ?t) (png_dir doc_conv) [''page-2.png'']
      (work_tree ?st [(''2.png'', File ''old'' 420), (''page-2.png'', File ''P2'' 420)] [])
      = (None, work_tree ?st [(''2.png'', File ''P2'' 420)] [])"
    by (simp add: match_page_at_def startswith_def isdigit_def int_of_digits_def digit_val_def
        str_nat.simps digit_char_def rename_def rename_in_def at_pages_location lookup_def
        work_tree_def)
  have count: "str_nat (length (filter (fnmatch_star [] ''.png'') (map fst [(''2.png'', File ''P2'' 420)]))) = ''1''"
    by (simp add: fnmatch_star_def startswith_def endswith_def str_nat.simps digit_char_def)
  show ?thesis
    using sample_pages [OF run listed loop] unfolding count by (simp add: at_pages_def)
qed

lemma with_cover_run:
  "pdf_to_png (env_doc (rasterizer_writes [(''page-1.png'', File ''P1'' 420)])) doc_conv
     (at_pages [(''cover.png'', File ''art'' 420)]) =
   (True,
    \<lparr> fs = work_tree [(''doc.pdf'', File ''%PDF-1.4'' 420)] [(''cover.png'', File ''art'' 420), (''1.png'', File ''P1'' 420)] [],
      stdout =
        [[NL] @ ''[2/4] Converting PDF to PNG sequence in assets/out/png/...'',
         ''  Running: pdftoppm -png -r 150 assets/in/doc.pdf assets/out/png/page'',
         ''  '' @ check_mark @ '' Created 2 PNG images''] \<rparr>)"
proof -
  let ?t = "rasterizer_writes [(''page-1.png'', File ''P1'' 420)]"
  let ?st = "[(''doc.pdf'', File ''%PDF-1.4'' 420)]"
  have run: "?t (pdftoppm_cmd doc_conv) (work_tree ?st [(''cover.png'', File ''art'' 420)] [])
      = Completed 0 [] (work_tree ?st [(''cover.png'', File ''art'' 420), (''page-1.png'', File ''P1'' 420)] [])"
    by (simp add: rasterizer_writes_def pdftoppm_cmd_def overwrite_def work_tree_def)
  have listed: "sort (filter (fnmatch_star ''page-'' ''.png'') (map fst [(''cover.png'', File ''art'' 420), (''page-1.png'', File ''P1'' 420)]))
      = [''page-1.png'']"
    by (simp add: fnmatch_star_def startswith_def endswith_def)
  have loop: "rename_pages (env_doc ?t) (png_dir doc_conv) [''page-1.png'']
      (work_tree ?st [(''cover.png'', File ''art'' 420), (''page-1.png'', File ''P1'' 420)] [])
      = (None, work_tree ?st [(''cover.png'', File ''art'' 420), (''1.png'', File ''P1'' 420)] [])"
    by (simp add: match_page_at_def startswith_def isdigit_def int_of_digits_def digit_val_def
        str_nat.simps digit_char_def rename_def rename_in_def at_pages_location lookup_def
        work_tree_def)
  have count: "str_nat (length (filter (fnmatch_star [] ''.png'') (map fst [(''cover.png'', File ''art'' 420), (''1.png'', File ''P1'' 420)]))) = ''2''"
    by (simp add: fnmatch_star_def startswith_def endswith_def str_nat.simps digit_char_def)
  show ?thesis
    using sample_pages [OF run listed loop] unfolding count by (simp add: at_pages_def)
qed

section \<open>Stage B on the samples\<close>

lemma native_samples:
  "native ''page-1.png''" "native ''page-2.png''" "\<not> native ''notes.txt''" "\<not> native ''2.png''"
  "page_number ''page-1.png'' = 1" "page_number ''page-2.png'' = 2"
  by (simp_all add: native_def page_number_def fnmatch_star_def startswith_def endswith_def
      match_page_at_def isdigit_def int_of_digits_def digit_val_def)

lemma canonical_samples:
  "canonical ''1.png''" "canonical ''2.png''" "\<not> canonical ''cover.png''" "\<not> canonical ''notes.txt''"
  by (simp_all add: canonical_def endswith_def isdigit_def int_of_digits_def digit_val_def
      str_nat.simps digit_char_def)

theorem renamed_pages_witness:
  "fst (pdf_to_png
         (env_doc (rasterizer_writes [(''page-1.png'', File ''P1'' 420), (''page-2.png'', File ''P2'' 420)]))
         doc_conv (at_pages [(''notes.txt'', File ''n'' 420)]))
   \<and> set (scandir
         (fs (snd (pdf_to_png
           (env_doc (rasterizer_writes [(''page-1.png'', File ''P1'' 420), (''page-2.png'', File ''P2'' 420)]))
           doc_conv (at_pages [(''notes.txt'', File ''n'' 420)]))))
         [''w'', ''assets'', ''out'', ''png''])
       = {''notes.txt'', ''1.png'', ''2.png''}
   \<and> lookup
         (fs (snd (pdf_to_png
           (env_doc (rasterizer_writes [(''page-1.png'', File ''P1'' 420), (''page-2.png'', File ''P2'' 420)]))
           doc_conv (at_pages [(''notes.txt'', File ''n'' 420)]))))
         ([''w'', ''assets'', ''out'', ''png''] @ [''notes.txt''])
       = Some (File ''n'' 420)"
proof -
  let ?E = "env_doc (rasterizer_writes [(''page-1.png'', File ''P1'' 420), (''page-2.png'', File ''P2'' 420)])"
  let ?s = "at_pages [(''notes.txt'', File ''n'' 420)]"
  let ?after = "[(''notes.txt'', File ''n'' 420), (''page-1.png'', File ''P1'' 420), (''page-2.png'', File ''P2'' 420)]"
  have ran: "subprocess_run ?E (pdftoppm_cmd doc_conv) (fs ?s)
      = Completed 0 [] (work_tree [(''doc.pdf'', File ''%PDF-1.4'' 420)] ?after [])"
    by (simp add: env_doc_def rasterizer_writes_def pdftoppm_cmd_def overwrite_def work_tree_def
        at_pages_def)
  have ok: "fst (pdf_to_png ?E doc_conv ?s)"
    by (simp add: two_pages_run)
  have matched: "{n \<in> set (map fst ?after). native n} = {''page-1.png'', ''page-2.png''}"
    "{n \<in> set (map fst ?after). \<not> native n} = {''notes.txt''}"
    using native_samples by auto
  have numbers: "page_number ` {''page-1.png'', ''page-2.png''} = {1..2}"
    using native_samples by auto
  have images: "(\<lambda>k. str_nat k @ ''.png'') ` {1..2} = {''1.png'', ''2.png''}"
  proof -
    have "{1..2::nat} = {1, 2}"
      by auto
    then show ?thesis
      by (simp add: str_nat.simps digit_char_def)
  qed
  have other: "''notes.txt'' \<notin> canonical_name ` {''page-1.png'', ''page-2.png''}"
    using native_samples by (simp add: canonical_name_def str_nat.simps digit_char_def)
  note renamed = renamed_pages [OF ran ok, of 2, unfolded at_pages_location pages_of_work_tree matched]
  from renamed numbers have names:
    "set (scandir (fs (snd (pdf_to_png ?E doc_conv ?s))) [''w'', ''assets'', ''out'', ''png''])
       = {''notes.txt''} \<union> (\<lambda>k. str_nat k @ ''.png'') ` {1..2}"
    by blast
  from renamed native_samples(3) other have kept:
    "lookup (fs (snd (pdf_to_png ?E doc_conv ?s))) ([''w'', ''assets'', ''out'', ''png''] @ [''notes.txt''])
       = map_of ?after ''notes.txt''"
    by blast
  show ?thesis
    using ok names kept unfolding images by (simp add: insert_commute)
qed

text \<open>
  C2 as stated fails: with \<open>2.png\<close> in the pages directory and a rasterizer whose only
  output is \<open>page-2.png\<close>, the stage succeeds and the directory then holds \<open>2.png\<close> alone,
  which is no set \<open>1.png\<close> to \<open>N.png\<close>; and the old \<open>2.png\<close>, a name the native pattern
  does not match, has been replaced.
\<close>

theorem pages_not_contiguous_counterexample:
  "subprocess_run (env_doc (rasterizer_writes [(''page-2.png'', File ''P2'' 420)]))
       (pdftoppm_cmd doc_conv) (fs (at_pages [(''2.png'', File ''old'' 420)]))
     = Completed 0 []
         (work_tree [(''doc.pdf'', File ''%PDF-1.4'' 420)]
            [(''2.png'', File ''old'' 420), (''page-2.png'', File ''P2'' 420)] [])
   \<and> fst (pdf_to_png (env_doc (rasterizer_writes [(''page-2.png'', File ''P2'' 420)])) doc_conv
            (at_pages [(''2.png'', File ''old'' 420)]))
   \<and> scandir
        (fs (snd (pdf_to_png (env_doc (rasterizer_writes [(''page-2.png'', File ''P2'' 420)])) doc_conv
                    (at_pages [(''2.png'', File ''old'' 420)]))))
        [''w'', ''assets'', ''out'', ''png'']
      = [''2.png'']
   \<and> \<not> native ''2.png''
   \<and> lookup
        (fs (snd (pdf_to_png (env_doc (rasterizer_writes [(''page-2.png'', File ''P2'' 420)])) doc_conv
                    (at_pages [(''2.png'', File ''old'' 420)]))))
        [''w'', ''assets'', ''out'', ''png'', ''2.png'']
      = Some (File ''P2'' 420)"
proof -
  have ran: "subprocess_run (env_doc (rasterizer_writes [(''page-2.png'', File ''P2'' 420)]))
       (pdftoppm_cmd doc_conv) (fs (at_pages [(''2.png'', File ''old'' 420)]))
     = Completed 0 []
         (work_tree [(''doc.pdf'', File ''%PDF-1.4'' 420)]
            [(''2.png'', File ''old'' 420), (''page-2.png'', File ''P2'' 420)] [])"
    by (simp add: env_doc_def rasterizer_writes_def pdftoppm_cmd_def overwrite_def work_tree_def
        at_pages_def)
  have entry: "lookup (work_tree [(''doc.pdf'', File ''%PDF-1.4'' 420)] [(''2.png'', File ''P2'' 420)] [])
      [''w'', ''assets'', ''out'', ''png'', ''2.png''] = Some (File ''P2'' 420)"
    using pages_of_work_tree(2) [of _ "[(''2.png'', File ''P2'' 420)]" "[]" "''2.png''"] by simp
  show ?thesis
    using ran native_samples(4) entry by (simp add: page_two_only_run pages_of_work_tree)
qed

theorem reported_count_witness:
  "fst (pdf_to_png
         (env_doc (rasterizer_writes [(''page-1.png'', File ''P1'' 420), (''page-2.png'', File ''P2'' 420)]))
         doc_conv (at_pages [(''notes.txt'', File ''n'' 420)]))
   \<and> last (stdout (snd (pdf_to_png
         (env_doc (rasterizer_writes [(''page-1.png'', File ''P1'' 420), (''page-2.png'', File ''P2'' 420)]))
         doc_conv (at_pages [(''notes.txt'', File ''n'' 420)]))))
       = ''  '' @ check_mark @ '' Created 2 PNG images''
   \<and> length (filter canonical (scandir
         (fs (snd (pdf_to_png
           (env_doc (rasterizer_writes [(''page-1.png'', File ''P1'' 420), (''page-2.png'', File ''P2'' 420)]))
           doc_conv (at_pages [(''notes.txt'', File ''n'' 420)]))))
         [''w'', ''assets'', ''out'', ''png''])) = 2"
proof -
  let ?E = "env_doc (rasterizer_writes [(''page-1.png'', File ''P1'' 420), (''page-2.png'', File ''P2'' 420)])"
  let ?s = "at_pages [(''notes.txt'', File ''n'' 420)]"
  have ok: "fst (pdf_to_png ?E doc_conv ?s)"
    by (simp add: two_pages_run)
  have final: "scandir (fs (snd (pdf_to_png ?E doc_conv ?s))) [''w'', ''assets'', ''out'', ''png'']
      = [''notes.txt'', ''1.png'', ''2.png'']"
    by (simp add: two_pages_run pages_of_work_tree)
  have png: "filter (fnmatch_star [] ''.png'') [''notes.txt'', ''1.png'', ''2.png''] = [''1.png'', ''2.png'']"
    by (simp add: fnmatch_star_def startswith_def endswith_def)
  have all: "\<forall>n \<in> set [''notes.txt'', ''1.png'', ''2.png'']. fnmatch_star [] ''.png'' n \<longrightarrow> canonical n"
    using canonical_samples by (simp add: fnmatch_star_def startswith_def endswith_def)
  note counted = reported_count [OF ok, unfolded at_pages_location final]
  from counted have printed: "last (stdout (snd (pdf_to_png ?E doc_conv ?s))) =
      ''  '' @ check_mark @ '' Created ''
      @ str_nat (length (filter (fnmatch_star [] ''.png'') [''notes.txt'', ''1.png'', ''2.png'']))
      @ '' PNG images''"
    by (rule conjunct1)
  from counted all have images:
    "length (filter (fnmatch_star [] ''.png'') [''notes.txt'', ''1.png'', ''2.png''])
       = length (filter canonical [''notes.txt'', ''1.png'', ''2.png''])"
    by blast
  show ?thesis
    using ok printed images unfolding final png by (simp add: str_nat.simps digit_char_def)
qed

text \<open>
  C4 as stated fails: with \<open>cover.png\<close> in the pages directory and a one-page document,
  the stage reports 2 images while the directory holds one canonical image, \<open>1.png\<close>.
\<close>

theorem count_includes_other_png_counterexample:
  "fst (pdf_to_png (env_doc (rasterizer_writes [(''page-1.png'', File ''P1'' 420)])) doc_conv
          (at_pages [(''cover.png'', File ''art'' 420)]))
   \<and> scandir
        (fs (snd (pdf_to_png (env_doc (rasterizer_writes [(''page-1.png'', File ''P1'' 420)])) doc_conv
                    (at_pages [(''cover.png'', File ''art'' 420)]))))
        [''w'', ''assets'', ''out'', ''png'']
      = [''cover.png'', ''1.png'']
   \<and> filter canonical [''cover.png'', ''1.png''] = [''1.png'']
   \<and> last (stdout (snd (pdf_to_png (env_doc (rasterizer_writes [(''page-1.png'', File ''P1'' 420)])) doc_conv
                          (at_pages [(''cover.png'', File ''art'' 420)]))))
      = ''  '' @ check_mark @ '' Created 2 PNG images''"
  using canonical_samples by (simp add: with_cover_run pages_of_work_tree)

end
